theory Spec2Isabelle
  imports Complex_Main
begin

section \<open>The roller-coaster track store\<close>

text \<open>
  A shallow embedding of \<^verbatim>\<open>client/src/lib/stores/useRollerCoaster.tsx\<close>.
  JavaScript numbers that hold coordinates, tilt, progress and speed are modelled as
  \<^typ>\<open>real\<close>: the arithmetic of the source is kept operation by operation, rounding
  is not modelled, except for the direction frame of \<^verbatim>\<open>createLoopAtPoint\<close>, which is
  also given over an arbitrary arithmetic.  The module-level variable \<^verbatim>\<open>pointCounter\<close> only ever counts up from
  0 in steps of one and is modelled as a \<^typ>\<open>nat\<close>.
\<close>

subsection \<open>Data model\<close>

datatype CoasterMode = Build | Ride | Preview

text \<open>\<^verbatim>\<open>THREE.Vector3\<close>: the fields \<^verbatim>\<open>x\<close>, \<^verbatim>\<open>y\<close>, \<^verbatim>\<open>z\<close>.\<close>

record Vector3 =
  vx :: real
  vy :: real
  vz :: real

text \<open>\<^verbatim>\<open>interface TrackPoint\<close>; the field \<^verbatim>\<open>id\<close> is named \<open>tp_id\<close>.\<close>

record TrackPoint =
  tp_id :: string
  position :: Vector3
  tilt :: real

text \<open>The data fields of \<^verbatim>\<open>interface RollerCoasterState\<close>; \<^verbatim>\<open>null\<close> is \<open>None\<close>.\<close>

record RollerCoasterState =
  mode :: CoasterMode
  trackPoints :: "TrackPoint list"
  selectedPointId :: "string option"
  rideProgress :: real
  isRiding :: bool
  rideSpeed :: real
  isDraggingPoint :: bool
  isAddingPoints :: bool
  isLooped :: bool
  hasChainLift :: bool
  showWoodSupports :: bool
  isNightMode :: bool
  cameraTarget :: "Vector3 option"

text \<open>The defaults the store is created with.\<close>

definition initialState :: RollerCoasterState where
  "initialState =
     \<lparr> mode = Build, trackPoints = [], selectedPointId = None, rideProgress = 0,
       isRiding = False, rideSpeed = 1, isDraggingPoint = False, isAddingPoints = True,
       isLooped = False, hasChainLift = True, showWoodSupports = False,
       isNightMode = False, cameraTarget = None \<rparr>"

subsection \<open>Operations that assign fields\<close>

text \<open>
  \<^verbatim>\<open>set(partial)\<close> merges the given fields into the state and keeps every other field;
  that is a record update.
\<close>

definition setMode :: "CoasterMode \<Rightarrow> RollerCoasterState \<Rightarrow> RollerCoasterState" where
  "setMode m state = state\<lparr>mode := m\<rparr>"

definition setCameraTarget :: "Vector3 option \<Rightarrow> RollerCoasterState \<Rightarrow> RollerCoasterState" where
  "setCameraTarget target state = state\<lparr>cameraTarget := target\<rparr>"

definition setIsDraggingPoint :: "bool \<Rightarrow> RollerCoasterState \<Rightarrow> RollerCoasterState" where
  "setIsDraggingPoint dragging state = state\<lparr>isDraggingPoint := dragging\<rparr>"

definition setIsAddingPoints :: "bool \<Rightarrow> RollerCoasterState \<Rightarrow> RollerCoasterState" where
  "setIsAddingPoints adding state = state\<lparr>isAddingPoints := adding\<rparr>"

definition setIsLooped :: "bool \<Rightarrow> RollerCoasterState \<Rightarrow> RollerCoasterState" where
  "setIsLooped looped state = state\<lparr>isLooped := looped\<rparr>"

definition setHasChainLift :: "bool \<Rightarrow> RollerCoasterState \<Rightarrow> RollerCoasterState" where
  "setHasChainLift hasChain state = state\<lparr>hasChainLift := hasChain\<rparr>"

definition setShowWoodSupports :: "bool \<Rightarrow> RollerCoasterState \<Rightarrow> RollerCoasterState" where
  "setShowWoodSupports show state = state\<lparr>showWoodSupports := show\<rparr>"

definition setIsNightMode :: "bool \<Rightarrow> RollerCoasterState \<Rightarrow> RollerCoasterState" where
  "setIsNightMode night state = state\<lparr>isNightMode := night\<rparr>"

definition selectPoint :: "string option \<Rightarrow> RollerCoasterState \<Rightarrow> RollerCoasterState" where
  "selectPoint i state = state\<lparr>selectedPointId := i\<rparr>"

definition clearTrack :: "RollerCoasterState \<Rightarrow> RollerCoasterState" where
  "clearTrack state =
     state\<lparr>trackPoints := [], selectedPointId := None, rideProgress := 0, isRiding := False\<rparr>"

definition setRideProgress :: "real \<Rightarrow> RollerCoasterState \<Rightarrow> RollerCoasterState" where
  "setRideProgress progress state = state\<lparr>rideProgress := progress\<rparr>"

definition setIsRiding :: "bool \<Rightarrow> RollerCoasterState \<Rightarrow> RollerCoasterState" where
  "setIsRiding riding state = state\<lparr>isRiding := riding\<rparr>"

definition setRideSpeed :: "real \<Rightarrow> RollerCoasterState \<Rightarrow> RollerCoasterState" where
  "setRideSpeed speed state = state\<lparr>rideSpeed := speed\<rparr>"

definition startRide :: "RollerCoasterState \<Rightarrow> RollerCoasterState" where
  "startRide state =
     (if length (trackPoints state) \<ge> 2
      then state\<lparr>mode := Ride, isRiding := True, rideProgress := 0\<rparr>
      else state)"

definition stopRide :: "RollerCoasterState \<Rightarrow> RollerCoasterState" where
  "stopRide state = state\<lparr>mode := Build, isRiding := False, rideProgress := 0\<rparr>"

subsection \<open>Minting ids\<close>

text \<open>
  The template string \<^verbatim>\<open>`point-${++pointCounter}`\<close>: the counter is incremented first and
  its new value is written in decimal, most significant digit first, without leading
  zeros.
\<close>

definition digit_char :: "nat \<Rightarrow> char" where
  "digit_char d = ''0123456789'' ! d"

fun dec :: "nat \<Rightarrow> string" where
  "dec n = (if n < 10 then [digit_char n] else dec (n div 10) @ [digit_char (n mod 10)])"

definition point_id :: "nat \<Rightarrow> string" where
  "point_id n = ''point-'' @ dec n"

subsection \<open>Operations on the track\<close>

text \<open>\<^verbatim>\<open>Vector3.clone()\<close>: a new vector with the same components.\<close>

definition clone :: "Vector3 \<Rightarrow> Vector3" where
  "clone v = \<lparr>vx = vx v, vy = vy v, vz = vz v\<rparr>"

text \<open>
  The two operations that mint ids take the value of \<^verbatim>\<open>pointCounter\<close> with the state and
  return both.
\<close>

definition addTrackPoint ::
  "Vector3 \<Rightarrow> nat \<times> RollerCoasterState \<Rightarrow> nat \<times> RollerCoasterState" where
  "addTrackPoint pos cs =
     (let pointCounter = fst cs + 1;
          state = snd cs;
          i = point_id pointCounter
      in (pointCounter,
          state\<lparr>trackPoints :=
            trackPoints state @ [\<lparr>tp_id = i, position = clone pos, tilt = 0\<rparr>]\<rparr>))"

definition updateTrackPoint ::
  "string \<Rightarrow> Vector3 \<Rightarrow> RollerCoasterState \<Rightarrow> RollerCoasterState" where
  "updateTrackPoint i pos state =
     state\<lparr>trackPoints :=
       map (\<lambda>point. if tp_id point = i then point\<lparr>position := clone pos\<rparr> else point)
         (trackPoints state)\<rparr>"

definition updateTrackPointTilt ::
  "string \<Rightarrow> real \<Rightarrow> RollerCoasterState \<Rightarrow> RollerCoasterState" where
  "updateTrackPointTilt i t state =
     state\<lparr>trackPoints :=
       map (\<lambda>point. if tp_id point = i then point\<lparr>tilt := t\<rparr> else point)
         (trackPoints state)\<rparr>"

definition removeTrackPoint :: "string \<Rightarrow> RollerCoasterState \<Rightarrow> RollerCoasterState" where
  "removeTrackPoint i state =
     state\<lparr>trackPoints := filter (\<lambda>point. tp_id point \<noteq> i) (trackPoints state),
           selectedPointId :=
             (if selectedPointId state = Some i then None else selectedPointId state)\<rparr>"

subsection \<open>Vector operations used by the loop generator\<close>

text \<open>
  The methods of \<^verbatim>\<open>THREE.Vector3\<close> that \<^verbatim>\<open>createLoopAtPoint\<close> calls, as three.js
  defines them: \<^verbatim>\<open>sub\<close> is componentwise, \<^verbatim>\<open>length\<close> is the Euclidean norm,
  \<^verbatim>\<open>normalize\<close> is \<^verbatim>\<open>divideScalar(length() || 1)\<close> (the zero vector stays as it is), and
  \<^verbatim>\<open>crossVectors(a, b)\<close> is the cross product.
\<close>

definition sub :: "Vector3 \<Rightarrow> Vector3 \<Rightarrow> Vector3" where
  "sub a b = \<lparr>vx = vx a - vx b, vy = vy a - vy b, vz = vz a - vz b\<rparr>"

definition vlength :: "Vector3 \<Rightarrow> real" where
  "vlength v = sqrt (vx v * vx v + vy v * vy v + vz v * vz v)"

definition divideScalar :: "real \<Rightarrow> Vector3 \<Rightarrow> Vector3" where
  "divideScalar s v = \<lparr>vx = vx v * (1 / s), vy = vy v * (1 / s), vz = vz v * (1 / s)\<rparr>"

definition normalize :: "Vector3 \<Rightarrow> Vector3" where
  "normalize v = divideScalar (if vlength v = 0 then 1 else vlength v) v"

definition crossVectors :: "Vector3 \<Rightarrow> Vector3 \<Rightarrow> Vector3" where
  "crossVectors a b =
     \<lparr>vx = vy a * vz b - vz a * vy b,
      vy = vz a * vx b - vx a * vz b,
      vz = vx a * vy b - vy a * vx b\<rparr>"

subsection \<open>createLoopAtPoint\<close>

text \<open>\<^verbatim>\<open>Array.prototype.findIndex\<close>: the index of the first match, or -1.\<close>

fun findIndexFrom :: "('a \<Rightarrow> bool) \<Rightarrow> 'a list \<Rightarrow> int \<Rightarrow> int" where
  "findIndexFrom P [] k = - 1"
| "findIndexFrom P (a # as) k = (if P a then k else findIndexFrom P as (k + 1))"

definition findIndex :: "('a \<Rightarrow> bool) \<Rightarrow> 'a list \<Rightarrow> int" where
  "findIndex P xs = findIndexFrom P xs 0"

definition loopRadius :: real where
  "loopRadius = 8"

definition lateralOffset :: real where
  "lateralOffset = loopRadius + 2"

definition arcPoints :: nat where
  "arcPoints = 8"

text \<open>
  The forward direction along the track at index \<open>pointIndex\<close> (lines 123 to 132): the
  default is the x axis; when there is a previous point, the difference to it with its
  height dropped, replaced by the default when shorter than 0.1, then normalized.
\<close>

definition forwardAt :: "TrackPoint list \<Rightarrow> int \<Rightarrow> Vector3" where
  "forwardAt tps pointIndex =
     (let pos = clone (position (tps ! nat pointIndex));
          forward = \<lparr>vx = 1, vy = 0, vz = 0\<rparr>
      in if pointIndex > 0
         then (let prevPoint = tps ! nat (pointIndex - 1);
                   forward1 = sub (clone pos) (position prevPoint);
                   forward2 = forward1\<lparr>vy := 0\<rparr>;
                   forward3 = (if vlength forward2 < 1 / 10
                               then \<lparr>vx = 1, vy = 0, vz = 0\<rparr> else forward2)
               in normalize forward3)
         else forward)"

text \<open>The left direction (lines 135 and 136).\<close>

definition leftAt :: "TrackPoint list \<Rightarrow> int \<Rightarrow> Vector3" where
  "leftAt tps pointIndex =
     (let up = \<lparr>vx = 0, vy = 1, vz = 0\<rparr>
      in normalize (crossVectors up (forwardAt tps pointIndex)))"

text \<open>
  The loop of lines 178 to 195, from index \<open>i\<close> on: each round increments the counter
  and pushes one point.
\<close>

function loopArc ::
  "nat \<Rightarrow> nat \<Rightarrow> Vector3 \<Rightarrow> real \<Rightarrow> real \<Rightarrow> real \<Rightarrow> TrackPoint list \<Rightarrow> nat \<times> TrackPoint list"
  where
  "loopArc i pointCounter left loopCenterX loopCenterY loopCenterZ loopPoints =
     (if i < arcPoints
      then (let t = real i / real arcPoints;
                angle = t * pi * 2;
                lateralPos = cos angle * loopRadius;
                heightPos = sin angle * loopRadius;
                pointCounter' = pointCounter + 1
            in loopArc (i + 1) pointCounter' left loopCenterX loopCenterY loopCenterZ
                 (loopPoints @
                  [\<lparr>tp_id = point_id pointCounter',
                    position = \<lparr>vx = loopCenterX + vx left * lateralPos,
                                vy = loopCenterY + heightPos,
                                vz = loopCenterZ + vz left * lateralPos\<rparr>,
                    tilt = 0\<rparr>]))
      else (pointCounter, loopPoints))"
  by pat_completeness auto
termination
  by (relation "measure (\<lambda>(i, _). arcPoints - i)") auto

text \<open>
  The body of \<^verbatim>\<open>createLoopAtPoint\<close>.  The locals \<^verbatim>\<open>basePoint\<close> and \<^verbatim>\<open>pos\<close> are
  inside \<open>forwardAt\<close>; \<^verbatim>\<open>nextPos\<close> and \<^verbatim>\<open>numLoopPoints\<close> are not used by the source.
  Returning \<^verbatim>\<open>state\<close> itself from the callback changes nothing.
\<close>

definition createLoopAtPoint ::
  "string \<Rightarrow> nat \<times> RollerCoasterState \<Rightarrow> nat \<times> RollerCoasterState" where
  "createLoopAtPoint i cs =
     (let pointCounter = fst cs;
          state = snd cs;
          pointIndex = findIndex (\<lambda>p. tp_id p = i) (trackPoints state)
      in if pointIndex = - 1 \<or> pointIndex \<ge> int (length (trackPoints state)) - 1
         then (pointCounter, state)
         else
          (let left = leftAt (trackPoints state) pointIndex;
               incomingPoints =
                 map (\<lambda>p. p\<lparr>position :=
                             \<lparr>vx = vx (position p) + vx left * lateralOffset,
                              vy = vy (position p),
                              vz = vz (position p) + vz left * lateralOffset\<rparr>\<rparr>)
                   (take (nat (pointIndex + 1)) (trackPoints state));
               outgoingPoints =
                 map (\<lambda>p. p\<lparr>position :=
                             \<lparr>vx = vx (position p) - vx left * lateralOffset,
                              vy = vy (position p),
                              vz = vz (position p) - vz left * lateralOffset\<rparr>\<rparr>)
                   (drop (nat (pointIndex + 1)) (trackPoints state));
               entryPos = clone (position (incomingPoints ! (length incomingPoints - 1)));
               exitPos = clone (position (outgoingPoints ! 0));
               loopCenterX = (vx entryPos + vx exitPos) / 2;
               loopCenterY = vy entryPos + loopRadius;
               loopCenterZ = (vz entryPos + vz exitPos) / 2;
               (pointCounter', loopPoints) =
                 loopArc 1 pointCounter left loopCenterX loopCenterY loopCenterZ []
           in (pointCounter',
               state\<lparr>trackPoints := incomingPoints @ loopPoints @ outgoingPoints\<rparr>)))"

subsection \<open>The direction frame in the arithmetic of the program\<close>

text \<open>
  Lines 122 to 136 decide a branch by comparing a computed length with 0.1, so for them
  the arithmetic of JavaScript numbers is kept abstract instead of idealised: the number
  type is a type variable and its operations are the fields of a record.  The fields are
  what those lines and the \<^verbatim>\<open>Vector3\<close> methods they call use: \<^verbatim>\<open>+\<close>, \<^verbatim>\<open>-\<close>, \<^verbatim>\<open>*\<close>, \<^verbatim>\<open>/\<close>,
  \<^verbatim>\<open>Math.sqrt\<close>, \<^verbatim>\<open><\<close>, the test that \<^verbatim>\<open>||\<close> makes on its left operand (a number is falsy
  when it is 0, -0 or NaN), and the literals 0, 1 and 0.1.
\<close>

record 'a Arith =
  n_add :: "'a \<Rightarrow> 'a \<Rightarrow> 'a"
  n_sub :: "'a \<Rightarrow> 'a \<Rightarrow> 'a"
  n_mul :: "'a \<Rightarrow> 'a \<Rightarrow> 'a"
  n_div :: "'a \<Rightarrow> 'a \<Rightarrow> 'a"
  n_sqrt :: "'a \<Rightarrow> 'a"
  n_less :: "'a \<Rightarrow> 'a \<Rightarrow> bool"
  n_falsy :: "'a \<Rightarrow> bool"
  n_zero :: 'a
  n_one :: 'a
  n_tenth :: 'a

record 'a Vector3N =
  nx :: 'a
  ny :: 'a
  nz :: 'a

text \<open>
  \<^verbatim>\<open>sub\<close>, \<^verbatim>\<open>length\<close>, \<^verbatim>\<open>multiplyScalar\<close>, \<^verbatim>\<open>divideScalar\<close> (which multiplies by
  \<^verbatim>\<open>1 / scalar\<close>), \<^verbatim>\<open>normalize\<close> (which divides by \<^verbatim>\<open>length() || 1\<close>) and \<^verbatim>\<open>crossVectors\<close>
  of three.js, operation by operation.
\<close>

definition subN :: "'a Arith \<Rightarrow> 'a Vector3N \<Rightarrow> 'a Vector3N \<Rightarrow> 'a Vector3N" where
  "subN ar a b =
     \<lparr>nx = n_sub ar (nx a) (nx b), ny = n_sub ar (ny a) (ny b), nz = n_sub ar (nz a) (nz b)\<rparr>"

definition lengthN :: "'a Arith \<Rightarrow> 'a Vector3N \<Rightarrow> 'a" where
  "lengthN ar v =
     n_sqrt ar
       (n_add ar (n_add ar (n_mul ar (nx v) (nx v)) (n_mul ar (ny v) (ny v)))
          (n_mul ar (nz v) (nz v)))"

definition multiplyScalarN :: "'a Arith \<Rightarrow> 'a \<Rightarrow> 'a Vector3N \<Rightarrow> 'a Vector3N" where
  "multiplyScalarN ar s v =
     \<lparr>nx = n_mul ar (nx v) s, ny = n_mul ar (ny v) s, nz = n_mul ar (nz v) s\<rparr>"

definition divideScalarN :: "'a Arith \<Rightarrow> 'a \<Rightarrow> 'a Vector3N \<Rightarrow> 'a Vector3N" where
  "divideScalarN ar s v = multiplyScalarN ar (n_div ar (n_one ar) s) v"

definition normalizeN :: "'a Arith \<Rightarrow> 'a Vector3N \<Rightarrow> 'a Vector3N" where
  "normalizeN ar v =
     divideScalarN ar (if n_falsy ar (lengthN ar v) then n_one ar else lengthN ar v) v"

definition crossVectorsN :: "'a Arith \<Rightarrow> 'a Vector3N \<Rightarrow> 'a Vector3N \<Rightarrow> 'a Vector3N" where
  "crossVectorsN ar a b =
     \<lparr>nx = n_sub ar (n_mul ar (ny a) (nz b)) (n_mul ar (nz a) (ny b)),
      ny = n_sub ar (n_mul ar (nz a) (nx b)) (n_mul ar (nx a) (nz b)),
      nz = n_sub ar (n_mul ar (nx a) (ny b)) (n_mul ar (ny a) (nx b))\<rparr>"

text \<open>
  Lines 123 to 132 and lines 135 and 136, on the positions \<open>ps\<close> of the track points in
  their order.
\<close>

definition forwardN :: "'a Arith \<Rightarrow> 'a Vector3N list \<Rightarrow> int \<Rightarrow> 'a Vector3N" where
  "forwardN ar ps pointIndex =
     (let pos = ps ! nat pointIndex;
          forward = \<lparr>nx = n_one ar, ny = n_zero ar, nz = n_zero ar\<rparr>
      in if pointIndex > 0
         then (let prevPosition = ps ! nat (pointIndex - 1);
                   forward1 = subN ar pos prevPosition;
                   forward2 = forward1\<lparr>ny := n_zero ar\<rparr>;
                   forward3 = (if n_less ar (lengthN ar forward2) (n_tenth ar)
                               then \<lparr>nx = n_one ar, ny = n_zero ar, nz = n_zero ar\<rparr>
                               else forward2)
               in normalizeN ar forward3)
         else forward)"

definition leftN :: "'a Arith \<Rightarrow> 'a Vector3N list \<Rightarrow> int \<Rightarrow> 'a Vector3N" where
  "leftN ar ps pointIndex =
     (let up = \<lparr>nx = n_zero ar, ny = n_one ar, nz = n_zero ar\<rparr>
      in normalizeN ar (crossVectorsN ar up (forwardN ar ps pointIndex)))"


text \<open>
  The arithmetic of the reals, and a real vector as a vector of numbers: with them the
  functions above are \<open>forwardAt\<close> and \<open>leftAt\<close>.
\<close>

definition realArith :: "real Arith" where
  "realArith =
     \<lparr>n_add = (+), n_sub = (-), n_mul = (*), n_div = (/), n_sqrt = sqrt, n_less = (<),
      n_falsy = (\<lambda>a. a = 0), n_zero = 0, n_one = 1, n_tenth = 1 / 10\<rparr>"

definition toN :: "Vector3 \<Rightarrow> real Vector3N" where
  "toN v = \<lparr>nx = vx v, ny = vy v, nz = vz v\<rparr>"

subsection \<open>The store as a transition system\<close>

text \<open>One constructor for each operation of the store, with its arguments.\<close>

datatype Op =
    SetMode CoasterMode
  | SetCameraTarget "Vector3 option"
  | SetIsDraggingPoint bool
  | SetIsAddingPoints bool
  | SetIsLooped bool
  | SetHasChainLift bool
  | SetShowWoodSupports bool
  | SetIsNightMode bool
  | AddTrackPoint Vector3
  | UpdateTrackPoint string Vector3
  | UpdateTrackPointTilt string real
  | RemoveTrackPoint string
  | CreateLoopAtPoint string
  | SelectPoint "string option"
  | ClearTrack
  | SetRideProgress real
  | SetIsRiding bool
  | SetRideSpeed real
  | StartRide
  | StopRide

fun apply_op :: "Op \<Rightarrow> nat \<times> RollerCoasterState \<Rightarrow> nat \<times> RollerCoasterState" where
  "apply_op (SetMode m) cs = (fst cs, setMode m (snd cs))"
| "apply_op (SetCameraTarget t) cs = (fst cs, setCameraTarget t (snd cs))"
| "apply_op (SetIsDraggingPoint b) cs = (fst cs, setIsDraggingPoint b (snd cs))"
| "apply_op (SetIsAddingPoints b) cs = (fst cs, setIsAddingPoints b (snd cs))"
| "apply_op (SetIsLooped b) cs = (fst cs, setIsLooped b (snd cs))"
| "apply_op (SetHasChainLift b) cs = (fst cs, setHasChainLift b (snd cs))"
| "apply_op (SetShowWoodSupports b) cs = (fst cs, setShowWoodSupports b (snd cs))"
| "apply_op (SetIsNightMode b) cs = (fst cs, setIsNightMode b (snd cs))"
| "apply_op (AddTrackPoint p) cs = addTrackPoint p cs"
| "apply_op (UpdateTrackPoint i p) cs = (fst cs, updateTrackPoint i p (snd cs))"
| "apply_op (UpdateTrackPointTilt i t) cs = (fst cs, updateTrackPointTilt i t (snd cs))"
| "apply_op (RemoveTrackPoint i) cs = (fst cs, removeTrackPoint i (snd cs))"
| "apply_op (CreateLoopAtPoint i) cs = createLoopAtPoint i cs"
| "apply_op (SelectPoint i) cs = (fst cs, selectPoint i (snd cs))"
| "apply_op ClearTrack cs = (fst cs, clearTrack (snd cs))"
| "apply_op (SetRideProgress r) cs = (fst cs, setRideProgress r (snd cs))"
| "apply_op (SetIsRiding b) cs = (fst cs, setIsRiding b (snd cs))"
| "apply_op (SetRideSpeed r) cs = (fst cs, setRideSpeed r (snd cs))"
| "apply_op StartRide cs = (fst cs, startRide (snd cs))"
| "apply_op StopRide cs = (fst cs, stopRide (snd cs))"

text \<open>
  The store after the operations \<open>ops\<close>, in order, from the start of the application:
  the counter is 0 and the state is \<open>initialState\<close>.
\<close>

definition run :: "Op list \<Rightarrow> nat \<times> RollerCoasterState" where
  "run ops = fold apply_op ops (0, initialState)"

subsection \<open>Notions of the specification\<close>

text \<open>
  Moving a point by \<open>d\<close> along \<open>v\<close> in the horizontal plane: the height, the id and the
  tilt stay.
\<close>

definition translate :: "real \<Rightarrow> Vector3 \<Rightarrow> TrackPoint \<Rightarrow> TrackPoint" where
  "translate d v p =
     p\<lparr>position := \<lparr>vx = vx (position p) + d * vx v, vy = vy (position p),
                    vz = vz (position p) + d * vz v\<rparr>\<rparr>"

text \<open>
  The centre of the loop for given entry and exit anchors, and the position on the arc at
  the angle \<open>\<theta>\<close>: \<open>cos \<theta> \<cdot> 8\<close> along \<open>left\<close> from the centre and \<open>sin \<theta> \<cdot> 8\<close> above it.
\<close>

definition loopCenter :: "Vector3 \<Rightarrow> Vector3 \<Rightarrow> Vector3" where
  "loopCenter entry exit =
     \<lparr>vx = (vx entry + vx exit) / 2, vy = vy entry + 8, vz = (vz entry + vz exit) / 2\<rparr>"

definition arcPosition :: "Vector3 \<Rightarrow> Vector3 \<Rightarrow> real \<Rightarrow> Vector3" where
  "arcPosition center left \<theta> =
     \<lparr>vx = vx center + (cos \<theta> * 8) * vx left, vy = vy center + sin \<theta> * 8,
      vz = vz center + (cos \<theta> * 8) * vz left\<rparr>"

text \<open>The point that round \<open>j\<close> of the loop pushes when it mints the id number \<open>n\<close>.\<close>

definition arcPoint :: "nat \<Rightarrow> Vector3 \<Rightarrow> real \<Rightarrow> real \<Rightarrow> real \<Rightarrow> nat \<Rightarrow> TrackPoint" where
  "arcPoint n left cx cy cz j =
     \<lparr>tp_id = point_id n,
      position = \<lparr>vx = cx + vx left * (cos (real j / 8 * pi * 2) * 8),
                  vy = cy + sin (real j / 8 * pi * 2) * 8,
                  vz = cz + vz left * (cos (real j / 8 * pi * 2) * 8)\<rparr>,
      tilt = 0\<rparr>"

text \<open>
  The forward direction in the words of the specification: the difference from the
  previous point to the target with its height set to 0, normalized, unless the target
  is the first point or that difference is shorter than 0.1.
\<close>

definition horizontal :: "Vector3 \<Rightarrow> Vector3" where
  "horizontal v = \<lparr>vx = vx v, vy = 0, vz = vz v\<rparr>"

definition specForward :: "TrackPoint list \<Rightarrow> nat \<Rightarrow> Vector3" where
  "specForward tps n =
     (let d = horizontal (sub (position (tps ! n)) (position (tps ! (n - 1))))
      in if n = 0 \<or> vlength d < 1 / 10 then \<lparr>vx = 1, vy = 0, vz = 0\<rparr>
         else normalize d)"

text \<open>
  The invariant of the store: the ids of the track are pairwise distinct and each was
  minted from a counter value that is not above the current one.
\<close>

definition ids_minted :: "nat \<times> RollerCoasterState \<Rightarrow> bool" where
  "ids_minted cs \<longleftrightarrow>
     distinct (map tp_id (trackPoints (snd cs))) \<and>
     (\<forall>p \<in> set (trackPoints (snd cs)). \<exists>m. m \<le> fst cs \<and> tp_id p = point_id m)"

subsection \<open>Example tracks\<close>

definition vec :: "real \<Rightarrow> real \<Rightarrow> real \<Rightarrow> Vector3" where
  "vec a b c = \<lparr>vx = a, vy = b, vz = c\<rparr>"

text \<open>
  The straight track of three points at (0,0,0), (10,0,0) and (20,0,0), built by three
  calls of \<open>addTrackPoint\<close> on the fresh store.
\<close>

definition straightTrack :: "nat \<times> RollerCoasterState" where
  "straightTrack =
     run [AddTrackPoint (vec 0 0 0), AddTrackPoint (vec 10 0 0), AddTrackPoint (vec 20 0 0)]"

text \<open>
  The track after \<open>createLoopAtPoint\<close> on the middle point of the straight track, and
  the left direction used there.
\<close>

definition loopedTrack :: "TrackPoint list" where
  "loopedTrack = trackPoints (snd (createLoopAtPoint ''point-2'' straightTrack))"

definition straightLeft :: Vector3 where
  "straightLeft = leftAt (trackPoints (snd straightTrack)) 1"



text \<open>The fresh store after selecting an id that no point has.\<close>

definition staleSelection :: RollerCoasterState where
  "staleSelection = snd (run [SelectPoint (Some ''point-7'')])"

section \<open>Auxiliary facts\<close>

declare dec.simps [simp del]
declare loopArc.simps [simp del]

subsection \<open>Ids are written injectively\<close>

lemma digit_char_inj: "a < 10 \<Longrightarrow> b < 10 \<Longrightarrow> digit_char a = digit_char b \<Longrightarrow> a = b"
proof -
  assume a: "a < 10" and b: "b < 10" and e: "digit_char a = digit_char b"
  have "distinct ''0123456789''" by simp
  moreover have "a < length ''0123456789''" "b < length ''0123456789''" using a b by simp_all
  ultimately show "a = b" using e unfolding digit_char_def
    by (simp add: nth_eq_iff_index_eq)
qed

lemma dec_small: "n < 10 \<Longrightarrow> dec n = [digit_char n]"
  by (subst dec.simps) simp

lemma dec_big: "\<not> n < 10 \<Longrightarrow> dec n = dec (n div 10) @ [digit_char (n mod 10)]"
  by (subst dec.simps) simp

lemma dec_nonempty: "dec n \<noteq> []"
  by (cases "n < 10") (simp_all add: dec_small dec_big)

lemma dec_inj: "dec n = dec m \<Longrightarrow> n = m"
proof (induction n arbitrary: m rule: dec.induct)
  case (1 n)
  show ?case
  proof (cases "n < 10")
    case True
    note n = this
    show ?thesis
    proof (cases "m < 10")
      case True
      with n "1.prems" show ?thesis
        by (simp add: dec_small digit_char_inj)
    next
      case False
      with n "1.prems" have "[digit_char n] = dec (m div 10) @ [digit_char (m mod 10)]"
        by (simp add: dec_small dec_big)
      then show ?thesis using dec_nonempty [of "m div 10"] by simp
    qed
  next
    case False
    note n = this
    show ?thesis
    proof (cases "m < 10")
      case True
      with n "1.prems" have "dec (n div 10) @ [digit_char (n mod 10)] = [digit_char m]"
        by (simp add: dec_small dec_big)
      then show ?thesis using dec_nonempty [of "n div 10"] by simp
    next
      case False
      with n "1.prems"
      have "dec (n div 10) @ [digit_char (n mod 10)] = dec (m div 10) @ [digit_char (m mod 10)]"
        by (simp add: dec_big)
      then have a: "dec (n div 10) = dec (m div 10)"
        and b: "digit_char (n mod 10) = digit_char (m mod 10)"
        by simp_all
      from "1.IH" [OF n a] have "n div 10 = m div 10" .
      moreover from b have "n mod 10 = m mod 10" by (simp add: digit_char_inj)
      ultimately show ?thesis by (metis div_mult_mod_eq)
    qed
  qed
qed

lemma point_id_inj: "point_id n = point_id m \<longleftrightarrow> n = m"
  by (auto simp: point_id_def dest: dec_inj)

subsection \<open>findIndex\<close>

lemma findIndexFrom_lower: "findIndexFrom P xs k = - 1 \<or> k \<le> findIndexFrom P xs k"
  by (induction xs arbitrary: k) (auto, force)

lemma findIndexFrom_shift: "0 \<le> k \<Longrightarrow>
  findIndexFrom P xs k = (if findIndexFrom P xs 0 = - 1 then - 1 else findIndexFrom P xs 0 + k)"
proof (induction xs arbitrary: k)
  case Nil
  then show ?case by simp
next
  case (Cons a xs)
  have "findIndexFrom P xs (k + 1) = (if findIndexFrom P xs 0 = - 1 then - 1 else findIndexFrom P xs 0 + (k + 1))"
    using Cons.IH [of "k + 1"] Cons.prems by simp
  moreover have "findIndexFrom P xs 1 = (if findIndexFrom P xs 0 = - 1 then - 1 else findIndexFrom P xs 0 + 1)"
    using Cons.IH [of 1] by simp
  moreover have "findIndexFrom P xs 0 = - 1 \<or> 0 \<le> findIndexFrom P xs 0"
    by (rule findIndexFrom_lower)
  ultimately show ?case using Cons.prems by auto
qed

lemma findIndex_Nil: "findIndex P [] = - 1"
  by (simp add: findIndex_def)

lemma findIndex_Cons:
  "findIndex P (a # xs) = (if P a then 0 else if findIndex P xs = - 1 then - 1 else findIndex P xs + 1)"
  using findIndexFrom_shift [of 1 P xs] by (simp add: findIndex_def)

lemma findIndex_none: "findIndex P xs = - 1 \<longleftrightarrow> (\<forall>a \<in> set xs. \<not> P a)"
proof (induction xs)
  case Nil
  show ?case by (simp add: findIndex_Nil)
next
  case (Cons a xs)
  have "findIndex P xs = - 1 \<or> 0 \<le> findIndex P xs"
    unfolding findIndex_def by (rule findIndexFrom_lower)
  with Cons show ?case by (auto simp: findIndex_Cons)
qed

lemma findIndex_found:
  "findIndex P xs \<noteq> - 1 \<Longrightarrow>
     0 \<le> findIndex P xs \<and> nat (findIndex P xs) < length xs \<and> P (xs ! nat (findIndex P xs)) \<and>
     (\<forall>j < nat (findIndex P xs). \<not> P (xs ! j))"
proof (induction xs)
  case Nil
  then show ?case by (simp add: findIndex_Nil)
next
  case (Cons a xs)
  show ?case
  proof (cases "P a")
    case True
    then show ?thesis by (simp add: findIndex_Cons)
  next
    case False
    with Cons.prems have ne: "findIndex P xs \<noteq> - 1"
      by (auto simp: findIndex_Cons split: if_splits)
    from Cons.IH [OF ne] have ih: "0 \<le> findIndex P xs" "nat (findIndex P xs) < length xs"
      "P (xs ! nat (findIndex P xs))" "\<forall>j < nat (findIndex P xs). \<not> P (xs ! j)"
      by simp_all
    have eq: "findIndex P (a # xs) = findIndex P xs + 1"
      using False ne by (simp add: findIndex_Cons)
    have n: "nat (findIndex P xs + 1) = Suc (nat (findIndex P xs))"
      using ih(1) by simp
    show ?thesis
      unfolding eq n using ih False
      by (auto simp: nth_Cons split: nat.splits)
  qed
qed

lemma findIndex_last_distinct:
  assumes d: "distinct (map f xs)" and ne: "xs \<noteq> []" and l: "f (last xs) = i"
  shows "findIndex (\<lambda>p. f p = i) xs = int (length xs) - 1"
proof -
  let ?k = "findIndex (\<lambda>p. f p = i) xs"
  have "\<not> (\<forall>a \<in> set xs. f a \<noteq> i)" using ne l last_in_set by blast
  then have "?k \<noteq> - 1" by (simp add: findIndex_none)
  from findIndex_found [OF this]
  have k: "0 \<le> ?k" "nat ?k < length xs" "f (xs ! nat ?k) = i" by simp_all
  have "f (xs ! (length xs - 1)) = i" using l ne by (simp add: last_conv_nth)
  with k(3) have "map f xs ! nat ?k = map f xs ! (length xs - 1)"
    using k(2) ne by simp
  moreover have "(map f xs ! nat ?k = map f xs ! (length xs - 1)) = (nat ?k = length xs - 1)"
    using d k(2) ne by (intro nth_eq_iff_index_eq) auto
  ultimately have "nat ?k = length xs - 1" by blast
  with k(1) ne show ?thesis by (cases xs) auto
qed

subsection \<open>The loop of the arc\<close>

lemma loopArc_closed:
  "loopArc i c left cx cy cz acc =
     (c + (8 - i), acc @ map (\<lambda>j. arcPoint (c + (j - i) + 1) left cx cy cz j) [i..<8])"
proof (induction i c left cx cy cz acc rule: loopArc.induct)
  case (1 i c left cx cy cz acc)
  show ?case
  proof (cases "i < 8")
    case False
    then show ?thesis by (subst loopArc.simps) (simp add: arcPoints_def)
  next
    case True
    have upt: "[i..<8] = i # [Suc i..<8]" using True by (simp add: upt_conv_Cons)
    have cong: "map (\<lambda>j. arcPoint (c + 1 + (j - (i + 1)) + 1) left cx cy cz j) [Suc i..<8] =
                map (\<lambda>j. arcPoint (c + (j - i) + 1) left cx cy cz j) [Suc i..<8]"
    proof (rule map_cong [OF refl])
      fix j assume "j \<in> set [Suc i..<8]"
      then have "c + 1 + (j - (i + 1)) + 1 = c + (j - i) + 1" by auto
      then show "arcPoint (c + 1 + (j - (i + 1)) + 1) left cx cy cz j =
                 arcPoint (c + (j - i) + 1) left cx cy cz j" by (simp only:)
    qed
    have step: "loopArc i c left cx cy cz acc =
        loopArc (i + 1) (c + 1) left cx cy cz (acc @ [arcPoint (c + 1) left cx cy cz i])"
      using True
      by (subst loopArc.simps) (simp add: arcPoints_def loopRadius_def arcPoint_def Let_def)
    have ih: "loopArc (i + 1) (c + 1) left cx cy cz (acc @ [arcPoint (c + 1) left cx cy cz i]) =
       (c + 1 + (8 - (i + 1)), (acc @ [arcPoint (c + 1) left cx cy cz i]) @
          map (\<lambda>j. arcPoint (c + 1 + (j - (i + 1)) + 1) left cx cy cz j) [i + 1..<8])"
      using "1.IH" [of "real i / real arcPoints" "real i / real arcPoints * pi * 2"
          "cos (real i / real arcPoints * pi * 2) * loopRadius"
          "sin (real i / real arcPoints * pi * 2) * loopRadius" "c + 1"] True
      by (simp add: arcPoints_def loopRadius_def arcPoint_def)
    show ?thesis
      unfolding step ih upt using True cong by simp
  qed
qed

subsection \<open>createLoopAtPoint, unfolded\<close>

lemma shift_in: "(\<lambda>p. p\<lparr>position :=
                             \<lparr>vx = vx (position p) + vx left * lateralOffset,
                              vy = vy (position p),
                              vz = vz (position p) + vz left * lateralOffset\<rparr>\<rparr>) = translate 10 left"
  by (simp add: fun_eq_iff translate_def lateralOffset_def loopRadius_def mult.commute)

lemma shift_out: "(\<lambda>p. p\<lparr>position :=
                             \<lparr>vx = vx (position p) - vx left * lateralOffset,
                              vy = vy (position p),
                              vz = vz (position p) - vz left * lateralOffset\<rparr>\<rparr>) = translate (- 10) left"
  by (simp add: fun_eq_iff translate_def lateralOffset_def loopRadius_def mult.commute)

lemma clone_id: "clone v = v"
  by (simp add: clone_def)

lemma createLoopAtPoint_rejected:
  "findIndex (\<lambda>p. tp_id p = i) (trackPoints state) = - 1 \<or>
   findIndex (\<lambda>p. tp_id p = i) (trackPoints state) \<ge> int (length (trackPoints state)) - 1 \<Longrightarrow>
   createLoopAtPoint i (c, state) = (c, state)"
  by (simp add: createLoopAtPoint_def Let_def)

lemma createLoopAtPoint_success:
  fixes state :: RollerCoasterState
  defines "tps \<equiv> trackPoints state"
  assumes k: "findIndex (\<lambda>p. tp_id p = i) tps = int n"
    and n: "n + 1 < length tps"
  defines "left \<equiv> leftAt tps (int n)"
  defines "center \<equiv> loopCenter (position (translate 10 left (tps ! n)))
                      (position (translate (- 10) left (tps ! (n + 1))))"
  shows "createLoopAtPoint i (c, state) =
     (c + 7,
      state\<lparr>trackPoints :=
        map (translate 10 left) (take (n + 1) tps) @
        map (\<lambda>j. arcPoint (c + j) left (vx center) (vy center) (vz center) j) [1..<8] @
        map (translate (- 10) left) (drop (n + 1) tps)\<rparr>)"
proof -
  have cond: "\<not> (int n = - 1 \<or> int n \<ge> int (length tps) - 1)"
    using n by simp
  have len_in: "length (map (translate 10 left) (take (n + 1) tps)) = n + 1"
    using n by simp
  have nat1: "nat (int n + 1) = n + 1" by simp
  have loop: "loopArc 1 c left cx cy cz [] =
      (c + 7, map (\<lambda>j. arcPoint (c + j) left cx cy cz j) [1..<8])" for cx cy cz
  proof -
    have "map (\<lambda>j. arcPoint (c + (j - 1) + 1) left cx cy cz j) [1..<8] =
          map (\<lambda>j. arcPoint (c + j) left cx cy cz j) [1..<8]"
      by (rule map_cong [OF refl]) auto
    then show ?thesis by (simp add: loopArc_closed)
  qed
  have center: "loopCenter (position (translate 10 left (tps ! n)))
      (position (translate (- 10) left (tps ! (n + 1)))) = center"
    by (simp add: center_def)
  have "createLoopAtPoint i (c, state) =
     (c + 7,
      state\<lparr>trackPoints :=
        map (translate 10 left) (take (n + 1) tps) @
        map (\<lambda>j. arcPoint (c + j) left
           ((vx (position (translate 10 left (tps ! n))) +
             vx (position (translate (- 10) left (tps ! (n + 1))))) / 2)
           (vy (position (translate 10 left (tps ! n))) + loopRadius)
           ((vz (position (translate 10 left (tps ! n))) +
             vz (position (translate (- 10) left (tps ! (n + 1))))) / 2) j) [1..<8] @
        map (translate (- 10) left) (drop (n + 1) tps)\<rparr>)"
    unfolding createLoopAtPoint_def Let_def fst_conv snd_conv tps_def [symmetric] k
      if_not_P [OF cond] left_def [symmetric] shift_in shift_out nat1 clone_id len_in
      loop
    using n by simp
  then show ?thesis
    by (simp add: center_def loopCenter_def loopRadius_def)
qed

subsection \<open>Removing from a list with distinct keys\<close>

lemma filter_distinct_nth:
  assumes "distinct (map f xs)" "n < length xs"
  shows "filter (\<lambda>p. f p \<noteq> f (xs ! n)) xs = take n xs @ drop (Suc n) xs"
proof -
  have xs: "xs = take n xs @ xs ! n # drop (Suc n) xs"
    using assms(2) by (simp add: id_take_nth_drop)
  have "distinct (map f (take n xs @ xs ! n # drop (Suc n) xs))"
    using assms(1) xs by simp
  then have a: "\<forall>p \<in> set (take n xs). f p \<noteq> f (xs ! n)"
    and b: "\<forall>p \<in> set (drop (Suc n) xs). f p \<noteq> f (xs ! n)"
    by (auto simp: image_iff)
  have "filter (\<lambda>p. f p \<noteq> f (xs ! n)) (take n xs @ xs ! n # drop (Suc n) xs) =
        take n xs @ drop (Suc n) xs"
    using a b by (simp add: filter_id_conv)
  with xs show ?thesis by simp
qed

subsection \<open>The invariant is kept by every operation\<close>

lemma ids_minted_fresh:
  assumes "ids_minted (c, state)" "c < m"
  shows "point_id m \<notin> tp_id ` set (trackPoints state)"
proof
  assume "point_id m \<in> tp_id ` set (trackPoints state)"
  then obtain p where p: "p \<in> set (trackPoints state)" "tp_id p = point_id m" by auto
  from assms(1) p(1) obtain m' where "m' \<le> c" "tp_id p = point_id m'"
    by (auto simp: ids_minted_def)
  with p(2) have "m = m'" by (simp add: point_id_inj)
  with \<open>m' \<le> c\<close> assms(2) show False by simp
qed

lemma ids_minted_addTrackPoint:
  assumes "ids_minted (c, state)"
  shows "ids_minted (addTrackPoint p (c, state))"
proof -
  have fresh: "point_id (c + 1) \<notin> tp_id ` set (trackPoints state)"
    using ids_minted_fresh [OF assms, of "c + 1"] by simp
  have old: "\<forall>q \<in> set (trackPoints state). \<exists>m. m \<le> c + 1 \<and> tp_id q = point_id m"
    using assms by (auto simp: ids_minted_def intro: le_SucI)
  show ?thesis
    using assms fresh old
    by (auto simp: ids_minted_def addTrackPoint_def Let_def)
qed

lemma ids_minted_same_ids:
  assumes "ids_minted (c, state)" "map tp_id (trackPoints state') = map tp_id (trackPoints state)"
  shows "ids_minted (c, state')"
proof -
  have "tp_id ` set (trackPoints state') = tp_id ` set (trackPoints state)"
    using assms(2) by (metis list.set_map)
  moreover have "\<forall>i \<in> tp_id ` set (trackPoints state). \<exists>m. m \<le> c \<and> i = point_id m"
    using assms(1) by (auto simp: ids_minted_def)
  ultimately have "\<forall>i \<in> tp_id ` set (trackPoints state'). \<exists>m. m \<le> c \<and> i = point_id m"
    by simp
  then show ?thesis using assms by (auto simp: ids_minted_def)
qed

lemma ids_minted_removeTrackPoint:
  assumes "ids_minted (c, state)"
  shows "ids_minted (c, removeTrackPoint i state)"
  using assms by (auto simp: ids_minted_def removeTrackPoint_def distinct_map_filter)

lemma ids_minted_clearTrack: "ids_minted (c, clearTrack state)"
  by (simp add: ids_minted_def clearTrack_def)

lemma tp_id_translate: "map tp_id (map (translate d v) xs) = map tp_id xs"
  by (simp add: translate_def comp_def)

lemma distinct_splice:
  assumes "distinct (A @ B)" "distinct N" "set N \<subseteq> F" "F \<inter> S = {}"
    "set A \<subseteq> S" "set B \<subseteq> S"
  shows "distinct (A @ N @ B)"
  using assms by auto

lemma tp_id_arcPoint:
  "map tp_id (map (\<lambda>j. arcPoint (g j) l a b d j) js) = map (\<lambda>j. point_id (g j)) js"
  by (simp add: arcPoint_def comp_def)

lemma ids_minted_createLoopAtPoint:
  assumes inv: "ids_minted (c, state)"
  shows "ids_minted (createLoopAtPoint i (c, state))"
proof -
  let ?tps = "trackPoints state"
  let ?k = "findIndex (\<lambda>p. tp_id p = i) ?tps"
  show ?thesis
  proof (cases "?k = - 1 \<or> ?k \<ge> int (length ?tps) - 1")
    case True
    then show ?thesis using inv by (simp add: createLoopAtPoint_rejected)
  next
    case False
    then have ne: "?k \<noteq> - 1" and lt: "?k < int (length ?tps) - 1" by simp_all
    from findIndex_found [OF ne] have "0 \<le> ?k" by simp
    then obtain n where n: "?k = int n" by (metis nonneg_int_cases)
    with lt have n1: "n + 1 < length ?tps" by simp
    let ?left = "leftAt ?tps (int n)"
    let ?center = "loopCenter (position (translate 10 ?left (?tps ! n)))
                      (position (translate (- 10) ?left (?tps ! (n + 1))))"
    let ?loop = "map (\<lambda>j. arcPoint (c + j) ?left (vx ?center) (vy ?center) (vz ?center) j) [1..<8]"
    let ?new = "map (translate 10 ?left) (take (n + 1) ?tps) @ ?loop @
                map (translate (- 10) ?left) (drop (n + 1) ?tps)"
    have eq: "createLoopAtPoint i (c, state) = (c + 7, state\<lparr>trackPoints := ?new\<rparr>)"
      by (rule createLoopAtPoint_success [OF n n1])
    have ids: "map tp_id ?new =
        map tp_id (take (n + 1) ?tps) @ map (\<lambda>j. point_id (c + j)) [1..<8] @
        map tp_id (drop (n + 1) ?tps)"
      by (simp only: map_append tp_id_translate tp_id_arcPoint)
    have d_old: "distinct (map tp_id (take (n + 1) ?tps) @ map tp_id (drop (n + 1) ?tps))"
      using inv by (simp add: ids_minted_def flip: map_append)
    have d_new: "distinct (map (\<lambda>j. point_id (c + j)) [1..<8])"
      by (simp add: distinct_map inj_on_def point_id_inj)
    have new_set: "set (map (\<lambda>j. point_id (c + j)) [1..<8]) \<subseteq> {point_id m | m. c < m \<and> m \<le> c + 7}"
      by auto
    have fresh: "{point_id m | m. c < m \<and> m \<le> c + 7} \<inter> tp_id ` set ?tps = {}"
    proof -
      have "point_id m \<notin> tp_id ` set ?tps" if "c < m" for m
        using ids_minted_fresh [OF inv that] .
      then show ?thesis by blast
    qed
    have sub1: "set (map tp_id (take (n + 1) ?tps)) \<subseteq> tp_id ` set ?tps"
      by (auto dest: in_set_takeD)
    have sub2: "set (map tp_id (drop (n + 1) ?tps)) \<subseteq> tp_id ` set ?tps"
      by (auto dest: in_set_dropD)
    have dist: "distinct (map tp_id ?new)"
      unfolding ids by (rule distinct_splice [OF d_old d_new new_set fresh sub1 sub2])
    have bound: "\<forall>i \<in> set (map tp_id ?new). \<exists>m. m \<le> c + 7 \<and> i = point_id m"
    proof
      fix i assume "i \<in> set (map tp_id ?new)"
      then consider "i \<in> tp_id ` set ?tps" | "i \<in> set (map (\<lambda>j. point_id (c + j)) [1..<8])"
        unfolding ids using sub1 sub2 by auto
      then show "\<exists>m. m \<le> c + 7 \<and> i = point_id m"
      proof cases
        case 1
        then obtain m where "m \<le> c" "i = point_id m"
          using inv by (auto simp: ids_minted_def)
        then show ?thesis by (intro exI [of _ m]) simp
      next
        case 2
        then obtain j where "j < 8" "i = point_id (c + j)" by auto
        then show ?thesis by (intro exI [of _ "c + j"]) simp
      qed
    qed
    have tp: "trackPoints (state\<lparr>trackPoints := ?new\<rparr>) = ?new" by simp
    have bound': "\<forall>p \<in> set ?new. \<exists>m. m \<le> c + 7 \<and> tp_id p = point_id m"
    proof
      fix p assume "p \<in> set ?new"
      then have "tp_id p \<in> set (map tp_id ?new)" unfolding set_map by (rule imageI)
      with bound show "\<exists>m. m \<le> c + 7 \<and> tp_id p = point_id m" by blast
    qed
    show ?thesis
      unfolding eq ids_minted_def fst_conv snd_conv tp by (intro conjI dist bound')
  qed
qed

lemma tp_id_update_position:
  "map (tp_id \<circ> (\<lambda>point. if P point then point\<lparr>position := v\<rparr> else point)) xs =
   map tp_id xs"
  by (induction xs) simp_all

lemma tp_id_update_tilt:
  "map (tp_id \<circ> (\<lambda>point. if P point then point\<lparr>tilt := t\<rparr> else point)) xs =
   map tp_id xs"
  by (induction xs) simp_all

lemma ids_minted_updateTrackPoint:
  "ids_minted (c, state) \<Longrightarrow> ids_minted (c, updateTrackPoint i p state)"
  by (rule ids_minted_same_ids) (simp_all add: updateTrackPoint_def tp_id_update_position)

lemma ids_minted_updateTrackPointTilt:
  "ids_minted (c, state) \<Longrightarrow> ids_minted (c, updateTrackPointTilt i t state)"
  by (rule ids_minted_same_ids) (simp_all add: updateTrackPointTilt_def tp_id_update_tilt)

lemma ids_minted_flags:
  assumes "ids_minted (c, state)"
  shows "ids_minted (c, setMode m state)"
    and "ids_minted (c, setCameraTarget t state)"
    and "ids_minted (c, setIsDraggingPoint b state)"
    and "ids_minted (c, setIsAddingPoints b state)"
    and "ids_minted (c, setIsLooped b state)"
    and "ids_minted (c, setHasChainLift b state)"
    and "ids_minted (c, setShowWoodSupports b state)"
    and "ids_minted (c, setIsNightMode b state)"
    and "ids_minted (c, selectPoint i state)"
    and "ids_minted (c, setRideProgress r state)"
    and "ids_minted (c, setIsRiding b state)"
    and "ids_minted (c, setRideSpeed r state)"
    and "ids_minted (c, startRide state)"
    and "ids_minted (c, stopRide state)"
  using assms
  by (simp_all add: ids_minted_def setMode_def setCameraTarget_def setIsDraggingPoint_def
      setIsAddingPoints_def setIsLooped_def setHasChainLift_def setShowWoodSupports_def
      setIsNightMode_def selectPoint_def setRideProgress_def setIsRiding_def setRideSpeed_def
      startRide_def stopRide_def)

lemma ids_minted_apply_op:
  assumes "ids_minted cs"
  shows "ids_minted (apply_op op cs)"
proof -
  obtain c state where cs: "cs = (c, state)" by (cases cs)
  from assms have inv: "ids_minted (c, state)" by (simp add: cs)
  show ?thesis
    unfolding cs
    by (cases op)
      (simp_all add: ids_minted_flags [OF inv] ids_minted_addTrackPoint [OF inv]
        ids_minted_updateTrackPoint [OF inv] ids_minted_updateTrackPointTilt [OF inv]
        ids_minted_removeTrackPoint [OF inv] ids_minted_createLoopAtPoint [OF inv]
        ids_minted_clearTrack)
qed

lemma ids_minted_fold: "ids_minted cs \<Longrightarrow> ids_minted (fold apply_op ops cs)"
  by (induction ops arbitrary: cs) (simp_all add: ids_minted_apply_op)

lemma ids_minted_run: "ids_minted (run ops)"
  unfolding run_def by (rule ids_minted_fold) (simp add: ids_minted_def initialState_def)

lemma length_fold_addTrackPoint:
  "length (trackPoints (snd (fold addTrackPoint ps cs))) = length (trackPoints (snd cs)) + length ps"
  by (induction ps arbitrary: cs) (simp_all add: addTrackPoint_def Let_def)

lemma run_snoc: "run (ops @ [op]) = apply_op op (run ops)"
  by (simp add: run_def)

lemma run_map_AddTrackPoint: "run (map AddTrackPoint ps) = fold addTrackPoint ps (0, initialState)"
proof -
  have "apply_op \<circ> AddTrackPoint = addTrackPoint" by (simp add: fun_eq_iff)
  then show ?thesis by (simp add: run_def fold_map)
qed

subsection \<open>The direction frame\<close>

lemma vlength_unit_x: "vlength \<lparr>vx = 1, vy = 0, vz = 0\<rparr> = 1"
  by (simp add: vlength_def)

lemma normalize_unit_x: "normalize \<lparr>vx = 1, vy = 0, vz = 0\<rparr> = \<lparr>vx = 1, vy = 0, vz = 0\<rparr>"
  by (simp add: normalize_def vlength_unit_x divideScalar_def)

lemma vlength_normalize:
  assumes "vlength v \<noteq> 0"
  shows "vlength (normalize v) = 1"
proof -
  let ?S = "vx v * vx v + vy v * vy v + vz v * vz v"
  let ?l = "vlength v"
  have S: "0 \<le> ?S" by simp
  have ll: "?l * ?l = ?S" unfolding vlength_def using S by simp
  have "vx v * (1 / ?l) * (vx v * (1 / ?l)) + vy v * (1 / ?l) * (vy v * (1 / ?l)) +
        vz v * (1 / ?l) * (vz v * (1 / ?l)) = ?S / (?l * ?l)"
    by (simp add: add_divide_distrib)
  also have "\<dots> = (?l * ?l) / (?l * ?l)" by (simp only: ll)
  also have "\<dots> = 1" using assms by simp
  finally have "vlength (divideScalar ?l v) = 1"
    by (simp add: vlength_def divideScalar_def)
  then show ?thesis using assms by (simp add: normalize_def)
qed

lemma vy_normalize: "vy (normalize v) = vy v * (1 / (if vlength v = 0 then 1 else vlength v))"
  by (simp add: normalize_def divideScalar_def)

lemma forwardAt_spec: "forwardAt tps (int n) = specForward tps n"
proof (cases "n = 0")
  case True
  then show ?thesis by (simp add: forwardAt_def specForward_def Let_def)
next
  case False
  then have n: "int n > 0" "nat (int n - 1) = n - 1" by simp_all
  have h: "(sub (clone (clone (position (tps ! n)))) (position (tps ! (n - 1))))\<lparr>vy := 0\<rparr> =
      horizontal (sub (position (tps ! n)) (position (tps ! (n - 1))))"
    by (simp add: clone_id horizontal_def sub_def)
  show ?thesis
    using False
    unfolding forwardAt_def specForward_def Let_def n(2) nat_int h if_P [OF n(1)]
    by (simp add: normalize_unit_x)
qed

lemma forwardAt_unit: "vlength (forwardAt tps (int n)) = 1 \<and> vy (forwardAt tps (int n)) = 0"
proof -
  let ?d = "horizontal (sub (position (tps ! n)) (position (tps ! (n - 1))))"
  show ?thesis
  proof (cases "n = 0 \<or> vlength ?d < 1 / 10")
    case True
    then show ?thesis
      unfolding forwardAt_spec specForward_def Let_def by (simp add: vlength_unit_x)
  next
    case False
    then have "vlength ?d \<noteq> 0" by simp
    then have "vlength (normalize ?d) = 1" by (rule vlength_normalize)
    moreover have "vy (normalize ?d) = 0" by (simp add: vy_normalize horizontal_def)
    ultimately show ?thesis
      using False unfolding forwardAt_spec specForward_def Let_def by simp
  qed
qed

lemma leftAt_explicit:
  "leftAt tps (int n) =
     \<lparr>vx = vz (forwardAt tps (int n)), vy = 0, vz = - vx (forwardAt tps (int n))\<rparr>"
proof -
  let ?f = "forwardAt tps (int n)"
  let ?c = "crossVectors \<lparr>vx = 0, vy = 1, vz = 0\<rparr> ?f"
  have c: "?c = \<lparr>vx = vz ?f, vy = 0, vz = - vx ?f\<rparr>"
    by (simp add: crossVectors_def)
  have f: "vlength ?f = 1" "vy ?f = 0" using forwardAt_unit [of tps n] by simp_all
  have "vlength ?c = vlength ?f"
    unfolding c by (simp add: vlength_def f(2) add.commute)
  then have "vlength ?c = 1" using f(1) by simp
  then have "normalize ?c = ?c" by (simp add: normalize_def divideScalar_def)
  then show ?thesis by (simp add: leftAt_def Let_def c)
qed

subsection \<open>The direction frame in any arithmetic\<close>



lemma lengthN_exact: "lengthN realArith (toN v) = vlength v"
  by (simp add: lengthN_def vlength_def realArith_def toN_def)

lemma normalizeN_exact: "normalizeN realArith (toN v) = toN (normalize v)"
  unfolding normalizeN_def normalize_def lengthN_exact
  by (simp add: realArith_def toN_def divideScalarN_def multiplyScalarN_def divideScalar_def)

lemma subN_exact: "subN realArith (toN a) (toN b) = toN (sub a b)"
  by (simp add: subN_def sub_def realArith_def toN_def)

lemma crossVectorsN_exact: "crossVectorsN realArith (toN a) (toN b) = toN (crossVectors a b)"
  by (simp add: crossVectorsN_def crossVectors_def realArith_def toN_def)

lemma toN_literals:
  "\<lparr>nx = n_one realArith, ny = n_zero realArith, nz = n_zero realArith\<rparr> =
     toN \<lparr>vx = 1, vy = 0, vz = 0\<rparr>"
  "\<lparr>nx = n_zero realArith, ny = n_one realArith, nz = n_zero realArith\<rparr> =
     toN \<lparr>vx = 0, vy = 1, vz = 0\<rparr>"
  "(toN v)\<lparr>ny := n_zero realArith\<rparr> = toN (v\<lparr>vy := 0\<rparr>)"
  "n_tenth realArith = 1 / 10"
  "n_less realArith a b = (a < b)"
  by (simp_all add: realArith_def toN_def)

lemma forwardN_exact:
  assumes "n < length tps"
  shows "forwardN realArith (map (toN \<circ> position) tps) (int n) = toN (forwardAt tps (int n))"
proof (cases "n = 0")
  case True
  then show ?thesis by (simp add: forwardN_def forwardAt_def Let_def toN_literals)
next
  case False
  then have n: "int n > 0" "nat (int n - 1) = n - 1" by simp_all
  have m: "n - 1 < length tps" using assms by simp
  have p: "map (toN \<circ> position) tps ! n = toN (position (tps ! n))"
    "map (toN \<circ> position) tps ! (n - 1) = toN (position (tps ! (n - 1)))"
    using assms m by simp_all
  show ?thesis
    unfolding forwardN_def forwardAt_def Let_def n(2) nat_int if_P [OF n(1)] p clone_id
      subN_exact toN_literals lengthN_exact if_distrib [of toN, symmetric] normalizeN_exact ..
qed

lemma leftN_exact:
  assumes "n < length tps"
  shows "leftN realArith (map (toN \<circ> position) tps) (int n) = toN (leftAt tps (int n))"
  unfolding leftN_def leftAt_def Let_def forwardN_exact [OF assms] toN_literals
    crossVectorsN_exact normalizeN_exact ..

subsection \<open>The points of the result\<close>

lemma nth_splice:
  assumes "length A = n + 1" "length L = 7"
  shows "(A @ L @ B) ! n = A ! n"
    and "1 \<le> j \<Longrightarrow> j \<le> 7 \<Longrightarrow> (A @ L @ B) ! (n + j) = L ! (j - 1)"
    and "(A @ L @ B) ! (n + 8) = B ! 0"
  using assms by (auto simp: nth_append)

lemma position_arcPoint:
  "position (arcPoint m left (vx center) (vy center) (vz center) j) =
     arcPosition center left (real j / 8 * (2 * pi))"
  by (simp add: arcPoint_def arcPosition_def mult.commute mult.left_commute)

lemma sqrt2_approx: "\<bar>4 * sqrt 2 - 5657 / 1000\<bar> < 1 / 1000"
proof -
  have lo: "1414 / 1000 < sqrt 2"
    by (rule real_less_rsqrt) (simp add: power2_eq_square)
  have hi: "sqrt 2 < 14145 / 10000"
    by (rule real_less_lsqrt) (simp_all add: power2_eq_square)
  from lo hi show ?thesis by linarith
qed

lemma first_angle:
  "sin (2 * pi / 8) * 8 = 4 * sqrt 2" "cos (2 * pi / 8) * 8 = 4 * sqrt 2"
proof -
  have "2 * pi / 8 = pi / 4" by simp
  then show "sin (2 * pi / 8) * 8 = 4 * sqrt 2" "cos (2 * pi / 8) * 8 = 4 * sqrt 2"
    by (simp_all add: sin_45 cos_45)
qed

lemma loop_result:
  fixes state :: RollerCoasterState and c :: nat
  assumes k: "findIndex (\<lambda>p. tp_id p = i) (trackPoints state) = int n"
    and n: "n + 1 < length (trackPoints state)"
  defines "r \<equiv> trackPoints (snd (createLoopAtPoint i (c, state)))"
  defines "left \<equiv> leftAt (trackPoints state) (int n)"
  shows "r ! n = translate 10 left (trackPoints state ! n)"
    and "r ! (n + 8) = translate (- 10) left (trackPoints state ! (n + 1))"
    and "1 \<le> j \<Longrightarrow> j \<le> 7 \<Longrightarrow>
         position (r ! (n + j)) =
           arcPosition (loopCenter (position (r ! n)) (position (r ! (n + 8)))) left
             (real j / 8 * (2 * pi))"
proof -
  let ?tps = "trackPoints state"
  let ?center = "loopCenter (position (translate 10 left (?tps ! n)))
                      (position (translate (- 10) left (?tps ! (n + 1))))"
  let ?A = "map (translate 10 left) (take (n + 1) ?tps)"
  let ?L = "map (\<lambda>j. arcPoint (c + j) left (vx ?center) (vy ?center) (vz ?center) j) [1..<8]"
  let ?B = "map (translate (- 10) left) (drop (n + 1) ?tps)"
  have r: "r = ?A @ ?L @ ?B"
    unfolding r_def left_def createLoopAtPoint_success [OF k n] by simp
  have lA: "length ?A = n + 1" using n by simp
  have lL: "length ?L = 7" by simp
  show entry: "r ! n = translate 10 left (?tps ! n)"
    unfolding r nth_splice(1) [OF lA lL] using n by simp
  show exit: "r ! (n + 8) = translate (- 10) left (?tps ! (n + 1))"
    unfolding r nth_splice(3) [OF lA lL] using n by simp
  assume j: "1 \<le> j" "j \<le> 7"
  have "?L ! (j - 1) = arcPoint (c + (1 + (j - 1))) left (vx ?center) (vy ?center) (vz ?center) (1 + (j - 1))"
    using j by (subst nth_map) (simp_all del: upt_Suc)
  then have "?L ! (j - 1) = arcPoint (c + j) left (vx ?center) (vy ?center) (vz ?center) j"
    using j by simp
  then have "position (r ! (n + j)) = arcPosition ?center left (real j / 8 * (2 * pi))"
    unfolding r nth_splice(2) [OF lA lL j] by (simp only: position_arcPoint)
  then show "position (r ! (n + j)) =
           arcPosition (loopCenter (position (r ! n)) (position (r ! (n + 8)))) left
             (real j / 8 * (2 * pi))"
    unfolding entry exit .
qed


subsection \<open>The example track\<close>

lemma straightTrack_points:
  "trackPoints (snd straightTrack) =
     [\<lparr>tp_id = ''point-1'', position = vec 0 0 0, tilt = 0\<rparr>,
      \<lparr>tp_id = ''point-2'', position = vec 10 0 0, tilt = 0\<rparr>,
      \<lparr>tp_id = ''point-3'', position = vec 20 0 0, tilt = 0\<rparr>]"
  by (simp add: straightTrack_def run_def addTrackPoint_def initialState_def clone_def vec_def
      point_id_def dec.simps digit_char_def)

lemma straightTrack_counter: "fst straightTrack = 3"
  by (simp add: straightTrack_def run_def addTrackPoint_def)

lemma findIndex_straight:
  "findIndex (\<lambda>p. tp_id p = ''point-1'') (trackPoints (snd straightTrack)) = 0"
  "findIndex (\<lambda>p. tp_id p = ''point-2'') (trackPoints (snd straightTrack)) = 1"
  "findIndex (\<lambda>p. tp_id p = ''point-3'') (trackPoints (snd straightTrack)) = 2"
  "findIndex (\<lambda>p. tp_id p = ''point-9'') (trackPoints (snd straightTrack)) = - 1"
  by (simp_all add: straightTrack_points findIndex_def)

lemma straightLeft_value: "straightLeft = vec 0 0 (- 1)"
proof -
  let ?tps = "trackPoints (snd straightTrack)"
  have "sqrt 100 = sqrt (10 * 10)" by simp
  also have "\<dots> = \<bar>10\<bar>" by (rule real_sqrt_abs2)
  also have "\<dots> = 10" by simp
  finally have s: "sqrt 100 = 10" .
  have f: "forwardAt ?tps (int 1) = \<lparr>vx = 1, vy = 0, vz = 0\<rparr>"
    unfolding forwardAt_spec
    by (simp add: specForward_def straightTrack_points vec_def horizontal_def sub_def
        vlength_def normalize_def divideScalar_def s)
  have "leftAt ?tps (int 1) = vec 0 0 (- 1)"
    unfolding leftAt_explicit f by (simp add: vec_def)
  then show ?thesis by (simp add: straightLeft_def)
qed

lemma straight_pair: "straightTrack = (3, snd straightTrack)"
  using straightTrack_counter by (metis prod.collapse)

lemma loopedTrack_anchors:
  "position (loopedTrack ! 1) = vec 10 0 (- 10)" "position (loopedTrack ! 9) = vec 20 0 10"
proof -
  have k: "findIndex (\<lambda>p. tp_id p = ''point-2'') (trackPoints (snd straightTrack)) = int 1"
    by (simp add: findIndex_straight)
  have n: "1 + 1 < length (trackPoints (snd straightTrack))"
    by (simp add: straightTrack_points)
  have l: "leftAt (trackPoints (snd straightTrack)) (int 1) = vec 0 0 (- 1)"
    using straightLeft_value by (simp add: straightLeft_def)
  have r: "loopedTrack = trackPoints (snd (createLoopAtPoint ''point-2'' (3, snd straightTrack)))"
    unfolding loopedTrack_def by (subst straight_pair) simp
  show "position (loopedTrack ! 1) = vec 10 0 (- 10)"
    unfolding r loop_result(1) [OF k n] l
    by (simp add: straightTrack_points translate_def vec_def)
  have "position (loopedTrack ! (1 + 8)) = vec 20 0 10"
    unfolding r loop_result(2) [OF k n] l
    by (simp add: straightTrack_points translate_def vec_def)
  then show "position (loopedTrack ! 9) = vec 20 0 10" by simp
qed


section \<open>Properties\<close>

subsection \<open>createLoopAtPoint\<close>

text \<open>
  Claim C1.  When the id resolves (by \<open>findIndex\<close>) to the index \<open>n\<close> and the point there
  is not the last one, \<open>createLoopAtPoint\<close> replaces the track by: the points up to and
  including index \<open>n\<close> moved by +10 (the value of \<open>lateralOffset\<close>) along \<open>left\<close>, then
  seven new points with the next seven ids and tilt 0, then the points after index \<open>n\<close>
  moved by -10 along \<open>left\<close>.  \<open>left\<close> is horizontal and moving a point keeps its height,
  id and tilt.  The track grows by exactly 7 and no other field of the state changes.
\<close>

theorem createLoopAtPoint_splice:
  assumes "findIndex (\<lambda>p. tp_id p = i) (trackPoints state) = int n"
    and "n + 1 < length (trackPoints state)"
  shows "\<exists>loopPoints.
    snd (createLoopAtPoint i (c, state)) =
      state\<lparr>trackPoints :=
        map (translate 10 (leftAt (trackPoints state) (int n))) (take (n + 1) (trackPoints state)) @
        loopPoints @
        map (translate (- 10) (leftAt (trackPoints state) (int n)))
          (drop (n + 1) (trackPoints state))\<rparr> \<and>
    length loopPoints = 7 \<and>
    map tp_id loopPoints = map point_id [c + 1..<c + 8] \<and>
    map tilt loopPoints = replicate 7 0 \<and>
    fst (createLoopAtPoint i (c, state)) = c + 7 \<and>
    length (trackPoints (snd (createLoopAtPoint i (c, state)))) =
      length (trackPoints state) + 7 \<and>
    lateralOffset = 10 \<and>
    vy (leftAt (trackPoints state) (int n)) = 0 \<and>
    vy (position (translate d v p)) = vy (position p) \<and>
    tp_id (translate d v p) = tp_id p \<and> tilt (translate d v p) = tilt p"
proof -
  let ?left = "leftAt (trackPoints state) (int n)"
  let ?center = "loopCenter (position (translate 10 ?left (trackPoints state ! n)))
                      (position (translate (- 10) ?left (trackPoints state ! (n + 1))))"
  let ?loop = "map (\<lambda>j. arcPoint (c + j) ?left (vx ?center) (vy ?center) (vz ?center) j) [1..<8]"
  note eq = createLoopAtPoint_success [OF assms, of c]
  have ids: "map tp_id ?loop = map point_id [c + 1..<c + 8]"
  proof -
    have "map tp_id ?loop = map (\<lambda>j. point_id (c + j)) [1..<8]"
      by (simp add: arcPoint_def comp_def)
    also have "\<dots> = map point_id (map (\<lambda>j. c + j) [1..<8])" by (simp add: comp_def)
    also have "map (\<lambda>j. c + j) [1..<8] = [c + 1..<c + 8]"
      using map_add_upt [of c 7] by (simp add: upt_conv_Cons)
    finally show ?thesis .
  qed
  have tilts: "map tilt ?loop = replicate 7 0"
    by (simp add: arcPoint_def comp_def upt_conv_Cons numeral_eq_Suc)
  have lefty: "vy ?left = 0"
    by (simp add: leftAt_def normalize_def divideScalar_def crossVectors_def Let_def)
  show ?thesis
    apply (rule exI [of _ ?loop])
    apply (intro conjI)
    subgoal using eq by simp
    subgoal by simp
    subgoal by (rule ids)
    subgoal by (rule tilts)
    subgoal using eq by simp
    subgoal using eq assms(2) by simp
    subgoal by (simp add: lateralOffset_def loopRadius_def)
    subgoal by (rule lefty)
    subgoal by (simp add: translate_def)
    subgoal by (simp add: translate_def)
    subgoal by (simp add: translate_def)
    done
qed

theorem createLoopAtPoint_splice_witness:
  "findIndex (\<lambda>p. tp_id p = ''point-2'') (trackPoints (snd straightTrack)) = int 1 \<and>
   1 + 1 < length (trackPoints (snd straightTrack)) \<and>
   length (trackPoints (snd (createLoopAtPoint ''point-2'' straightTrack))) = 10 \<and>
   fst (createLoopAtPoint ''point-2'' straightTrack) = 10"
proof -
  have a: "findIndex (\<lambda>p. tp_id p = ''point-2'') (trackPoints (snd straightTrack)) = int 1"
    by (simp add: findIndex_straight)
  have b: "1 + 1 < length (trackPoints (snd straightTrack))"
    by (simp add: straightTrack_points)
  have s: "(3, snd straightTrack) = straightTrack"
    using straightTrack_counter by (metis prod.collapse)
  from createLoopAtPoint_splice [OF a b, where c = 3] a b show ?thesis
    unfolding s by (auto simp: straightTrack_points)
qed

text \<open>
  Claim C3.  In a successful \<open>createLoopAtPoint\<close> at index \<open>n\<close>, with the entry anchor the
  point at index \<open>n\<close> of the result (the shifted target) and the exit anchor the point at
  index \<open>n + 8\<close> (the shifted first outgoing point), the centre of the loop is the
  midpoint of the anchors in x and z and 8 above the entry anchor in y, and the \<open>j\<close>-th
  generated point, \<open>j\<close> from 1 to 7, is at the angle \<open>(j / 8) \<cdot> 2\<pi>\<close>: \<open>cos \<theta> \<cdot> 8\<close> along
  \<open>left\<close> from the centre and \<open>sin \<theta> \<cdot> 8\<close> above it.  For the first generated point both
  offsets are \<open>4 \<cdot> sqrt 2\<close>, which is 5.657 to three decimals.
\<close>

theorem loop_points_on_arc:
  assumes "findIndex (\<lambda>p. tp_id p = i) (trackPoints state) = int n"
    and "n + 1 < length (trackPoints state)"
    and "1 \<le> j" and "j \<le> 7"
  shows
    "let r = trackPoints (snd (createLoopAtPoint i (c, state)));
         left = leftAt (trackPoints state) (int n);
         entry = position (r ! n);
         exit = position (r ! (n + 8));
         center = loopCenter entry exit
     in entry = position (translate 10 left (trackPoints state ! n)) \<and>
        exit = position (translate (- 10) left (trackPoints state ! (n + 1))) \<and>
        vx center = (vx entry + vx exit) / 2 \<and>
        vy center = vy entry + 8 \<and>
        vz center = (vz entry + vz exit) / 2 \<and>
        position (r ! (n + j)) = arcPosition center left (real j / 8 * (2 * pi)) \<and>
        vx (position (r ! (n + j))) = vx center + (cos (real j / 8 * (2 * pi)) * 8) * vx left \<and>
        vy (position (r ! (n + j))) = vy center + sin (real j / 8 * (2 * pi)) * 8 \<and>
        vz (position (r ! (n + j))) = vz center + (cos (real j / 8 * (2 * pi)) * 8) * vz left \<and>
        vy (position (r ! (n + 1))) - vy center = sin (2 * pi / 8) * 8 \<and>
        vx (position (r ! (n + 1))) - vx center = (cos (2 * pi / 8) * 8) * vx left \<and>
        vz (position (r ! (n + 1))) - vz center = (cos (2 * pi / 8) * 8) * vz left \<and>
        sin (2 * pi / 8) * 8 = 4 * sqrt 2 \<and> cos (2 * pi / 8) * 8 = 4 * sqrt 2 \<and>
        \<bar>4 * sqrt 2 - 5657 / 1000\<bar> < 1 / 1000"
proof -
  let ?r = "trackPoints (snd (createLoopAtPoint i (c, state)))"
  let ?left = "leftAt (trackPoints state) (int n)"
  let ?center = "loopCenter (position (?r ! n)) (position (?r ! (n + 8)))"
  note a = assms(1,2)
  have entry: "position (?r ! n) = position (translate 10 ?left (trackPoints state ! n))"
    by (simp only: loop_result(1) [OF a])
  have exit: "position (?r ! (n + 8)) =
      position (translate (- 10) ?left (trackPoints state ! (n + 1)))"
    by (simp only: loop_result(2) [OF a])
  have arc: "position (?r ! (n + j)) = arcPosition ?center ?left (real j / 8 * (2 * pi))"
    by (rule loop_result(3) [OF a assms(3,4)])
  have arc1: "position (?r ! (n + 1)) = arcPosition ?center ?left (real 1 / 8 * (2 * pi))"
    by (rule loop_result(3) [OF a]) simp_all
  have one: "real 1 / 8 * (2 * pi) = 2 * pi / 8" by simp
  show ?thesis
    unfolding Let_def
    apply (intro conjI)
    subgoal by (rule entry)
    subgoal by (rule exit)
    subgoal by (simp add: loopCenter_def)
    subgoal by (simp add: loopCenter_def)
    subgoal by (simp add: loopCenter_def)
    subgoal by (rule arc)
    subgoal unfolding arc by (simp add: arcPosition_def)
    subgoal unfolding arc by (simp add: arcPosition_def)
    subgoal unfolding arc by (simp add: arcPosition_def)
    subgoal unfolding arc1 one by (simp add: arcPosition_def)
    subgoal unfolding arc1 one by (simp add: arcPosition_def)
    subgoal unfolding arc1 one by (simp add: arcPosition_def)
    subgoal by (rule first_angle(1))
    subgoal by (rule first_angle(2))
    subgoal by (rule sqrt2_approx)
    done
qed

theorem loop_points_on_arc_witness:
  "findIndex (\<lambda>p. tp_id p = ''point-2'') (trackPoints (snd straightTrack)) = int 1 \<and>
   1 + 1 < length (trackPoints (snd straightTrack)) \<and> (1::nat) \<le> 1 \<and> (1::nat) \<le> 7 \<and>
   vy (position (loopedTrack ! 2)) = 8 + 4 * sqrt 2 \<and>
   vx (position (loopedTrack ! 2)) = 15 \<and>
   vz (position (loopedTrack ! 2)) = - (4 * sqrt 2)"
proof -
  have k: "findIndex (\<lambda>p. tp_id p = ''point-2'') (trackPoints (snd straightTrack)) = int 1"
    by (simp add: findIndex_straight)
  have n: "1 + 1 < length (trackPoints (snd straightTrack))"
    by (simp add: straightTrack_points)
  have l: "leftAt (trackPoints (snd straightTrack)) (int 1) = vec 0 0 (- 1)"
    using straightLeft_value by (simp add: straightLeft_def)
  have r: "trackPoints (snd (createLoopAtPoint ''point-2'' (3, snd straightTrack))) = loopedTrack"
    unfolding loopedTrack_def by (subst (2) straight_pair) simp
  have j: "(1::nat) \<le> 1" "(1::nat) \<le> 7" by simp_all
  from loop_points_on_arc [OF k n j, where c = 3]
  show ?thesis
    unfolding Let_def r l
    using k n
    by (simp add: straightTrack_points translate_def vec_def loopCenter_def arcPosition_def
        sin_45 cos_45 numeral_2_eq_2)
qed

text \<open>
  Claim C4, as the claim states it, fails: on the straight track with the loop at the
  middle point the entry anchor is (10, 0, -10) and the exit anchor (20, 0, 10), while
  the arc is at (15, 8, -8) for the angle 0 and at (15, 8, 8) for the angle \<open>\<pi>\<close>.
\<close>

theorem arc_ends_counterexample:
  "position (loopedTrack ! 1) = vec 10 0 (- 10) \<and>
   position (loopedTrack ! 9) = vec 20 0 10 \<and>
   straightLeft = vec 0 0 (- 1) \<and>
   arcPosition (loopCenter (position (loopedTrack ! 1)) (position (loopedTrack ! 9)))
     straightLeft 0 = vec 15 8 (- 8) \<and>
   arcPosition (loopCenter (position (loopedTrack ! 1)) (position (loopedTrack ! 9)))
     straightLeft pi = vec 15 8 8 \<and>
   arcPosition (loopCenter (position (loopedTrack ! 1)) (position (loopedTrack ! 9)))
     straightLeft 0 \<noteq> position (loopedTrack ! 1) \<and>
   arcPosition (loopCenter (position (loopedTrack ! 1)) (position (loopedTrack ! 9)))
     straightLeft pi \<noteq> position (loopedTrack ! 9)"
  unfolding loopedTrack_anchors straightLeft_value
  by (simp add: arcPosition_def loopCenter_def vec_def)

text \<open>
  Claim C4, amended.  In a successful \<open>createLoopAtPoint\<close> the arc position at the angle
  0 is the centre moved by 8 along \<open>left\<close>, at the height of the centre, which is 8 above
  the entry anchor, so it is never the entry anchor; the arc position at the angle \<open>\<pi>\<close>
  is the centre moved by 8 against \<open>left\<close>, at the same height, and it is the fourth
  generated point.  The centre is the midpoint of the entry and exit anchors in x and z.
\<close>

theorem arc_ends_spec:
  assumes "findIndex (\<lambda>p. tp_id p = i) (trackPoints state) = int n"
    and "n + 1 < length (trackPoints state)"
  shows
    "let r = trackPoints (snd (createLoopAtPoint i (c, state)));
         left = leftAt (trackPoints state) (int n);
         entry = position (r ! n);
         exit = position (r ! (n + 8));
         center = loopCenter entry exit
     in entry = position (translate 10 left (trackPoints state ! n)) \<and>
        exit = position (translate (- 10) left (trackPoints state ! (n + 1))) \<and>
        arcPosition center left 0 =
          \<lparr>vx = vx center + 8 * vx left, vy = vy entry + 8, vz = vz center + 8 * vz left\<rparr> \<and>
        arcPosition center left pi =
          \<lparr>vx = vx center - 8 * vx left, vy = vy entry + 8, vz = vz center - 8 * vz left\<rparr> \<and>
        vx center = (vx entry + vx exit) / 2 \<and> vz center = (vz entry + vz exit) / 2 \<and>
        vy (arcPosition center left 0) - vy entry = 8 \<and>
        arcPosition center left 0 \<noteq> entry \<and>
        position (r ! (n + 4)) = arcPosition center left pi"
proof -
  let ?r = "trackPoints (snd (createLoopAtPoint i (c, state)))"
  let ?left = "leftAt (trackPoints state) (int n)"
  let ?center = "loopCenter (position (?r ! n)) (position (?r ! (n + 8)))"
  have entry: "position (?r ! n) = position (translate 10 ?left (trackPoints state ! n))"
    by (simp only: loop_result(1) [OF assms])
  have exit: "position (?r ! (n + 8)) =
      position (translate (- 10) ?left (trackPoints state ! (n + 1)))"
    by (simp only: loop_result(2) [OF assms])
  have "position (?r ! (n + 4)) = arcPosition ?center ?left (real 4 / 8 * (2 * pi))"
    by (rule loop_result(3) [OF assms]) simp_all
  then have arc4: "position (?r ! (n + 4)) = arcPosition ?center ?left pi" by simp
  have h: "vy (arcPosition ?center ?left 0) - vy (position (?r ! n)) = 8"
    by (simp add: arcPosition_def loopCenter_def)
  have ne: "arcPosition ?center ?left 0 \<noteq> position (?r ! n)"
  proof
    assume "arcPosition ?center ?left 0 = position (?r ! n)"
    then have "vy (arcPosition ?center ?left 0) - vy (position (?r ! n)) = 0" by simp
    with h show False by simp
  qed
  show ?thesis
    unfolding Let_def
    apply (intro conjI)
    subgoal by (rule entry)
    subgoal by (rule exit)
    subgoal by (simp add: arcPosition_def loopCenter_def)
    subgoal by (simp add: arcPosition_def loopCenter_def)
    subgoal by (simp add: loopCenter_def)
    subgoal by (simp add: loopCenter_def)
    subgoal by (rule h)
    subgoal by (rule ne)
    subgoal by (rule arc4)
    done
qed

theorem arc_ends_spec_witness:
  "findIndex (\<lambda>p. tp_id p = ''point-2'') (trackPoints (snd straightTrack)) = int 1 \<and>
   1 + 1 < length (trackPoints (snd straightTrack)) \<and>
   position (loopedTrack ! 5) = vec 15 8 8 \<and>
   vy (position (loopedTrack ! 1)) = 0"
proof -
  have k: "findIndex (\<lambda>p. tp_id p = ''point-2'') (trackPoints (snd straightTrack)) = int 1"
    by (simp add: findIndex_straight)
  have n: "1 + 1 < length (trackPoints (snd straightTrack))"
    by (simp add: straightTrack_points)
  have l: "leftAt (trackPoints (snd straightTrack)) (int 1) = vec 0 0 (- 1)"
    using straightLeft_value by (simp add: straightLeft_def)
  have r: "trackPoints (snd (createLoopAtPoint ''point-2'' (3, snd straightTrack))) = loopedTrack"
    unfolding loopedTrack_def by (subst (2) straight_pair) simp
  from arc_ends_spec [OF k n, where c = 3]
  show ?thesis
    unfolding Let_def r l
    using k n
    by (simp add: straightTrack_points translate_def vec_def arcPosition_def loopCenter_def)
qed

text \<open>
  Claim C2.  When no point has the id, or \<open>findIndex\<close> resolves the id to the last index,
  \<open>createLoopAtPoint\<close> returns the state and the counter as they were.  With pairwise
  distinct ids the second case is: the last point has the id.
\<close>

theorem createLoopAtPoint_noop:
  "((\<forall>p \<in> set (trackPoints state). tp_id p \<noteq> i) \<or>
    findIndex (\<lambda>p. tp_id p = i) (trackPoints state) = int (length (trackPoints state)) - 1
      \<longrightarrow> createLoopAtPoint i (c, state) = (c, state)) \<and>
   (distinct (map tp_id (trackPoints state)) \<and> trackPoints state \<noteq> [] \<and>
    tp_id (last (trackPoints state)) = i
      \<longrightarrow> createLoopAtPoint i (c, state) = (c, state))"
proof (intro conjI impI)
  assume "(\<forall>p \<in> set (trackPoints state). tp_id p \<noteq> i) \<or>
    findIndex (\<lambda>p. tp_id p = i) (trackPoints state) = int (length (trackPoints state)) - 1"
  then have "findIndex (\<lambda>p. tp_id p = i) (trackPoints state) = - 1 \<or>
    findIndex (\<lambda>p. tp_id p = i) (trackPoints state) \<ge> int (length (trackPoints state)) - 1"
    by (auto simp: findIndex_none)
  then show "createLoopAtPoint i (c, state) = (c, state)"
    by (rule createLoopAtPoint_rejected)
next
  assume "distinct (map tp_id (trackPoints state)) \<and> trackPoints state \<noteq> [] \<and>
    tp_id (last (trackPoints state)) = i"
  then have "findIndex (\<lambda>p. tp_id p = i) (trackPoints state) = int (length (trackPoints state)) - 1"
    by (simp add: findIndex_last_distinct)
  then show "createLoopAtPoint i (c, state) = (c, state)"
    by (simp add: createLoopAtPoint_rejected)
qed

theorem createLoopAtPoint_noop_witness:
  "createLoopAtPoint ''point-9'' straightTrack = straightTrack \<and>
   createLoopAtPoint ''point-3'' straightTrack = straightTrack \<and>
   createLoopAtPoint ''point-1'' (run [AddTrackPoint (vec 0 0 0)]) = run [AddTrackPoint (vec 0 0 0)]"
proof -
  have s: "straightTrack = (fst straightTrack, snd straightTrack)" by simp
  have a: "createLoopAtPoint ''point-9'' (fst straightTrack, snd straightTrack) =
      (fst straightTrack, snd straightTrack)"
    using createLoopAtPoint_noop [of "snd straightTrack" "''point-9''" "fst straightTrack"]
    by (simp add: findIndex_straight straightTrack_points)
  have b: "createLoopAtPoint ''point-3'' (fst straightTrack, snd straightTrack) =
      (fst straightTrack, snd straightTrack)"
    using createLoopAtPoint_noop [of "snd straightTrack" "''point-3''" "fst straightTrack"]
    by (simp add: findIndex_straight straightTrack_points)
  let ?one = "run [AddTrackPoint (vec 0 0 0)]"
  have one: "trackPoints (snd ?one) = [\<lparr>tp_id = ''point-1'', position = vec 0 0 0, tilt = 0\<rparr>]"
    by (simp add: run_def addTrackPoint_def initialState_def clone_def vec_def
      point_id_def dec.simps digit_char_def)
  have c: "createLoopAtPoint ''point-1'' (fst ?one, snd ?one) = (fst ?one, snd ?one)"
    using createLoopAtPoint_noop [of "snd ?one" "''point-1''" "fst ?one"]
    by (simp add: one)
  from a b c show ?thesis by simp
qed




subsection \<open>Ids and addTrackPoint\<close>

text \<open>
  Claim C6.  After any sequence of store operations from the fresh store the ids of the
  track are pairwise distinct.  \<open>addTrackPoint\<close> appends one point, with the next id and
  tilt 0, at the end; in a reachable state that id is not in the track.  After the calls
  of \<open>addTrackPoint\<close> for the positions \<open>ps\<close> the track is longer by the length of \<open>ps\<close>,
  so from an empty track its length is the number of calls.
\<close>

theorem ids_distinct_reachable:
  "distinct (map tp_id (trackPoints (snd (run ops)))) \<and>
   run (ops @ [AddTrackPoint p]) =
     (fst (run ops) + 1,
      (snd (run ops))\<lparr>trackPoints := trackPoints (snd (run ops)) @
         [\<lparr>tp_id = point_id (fst (run ops) + 1), position = p, tilt = 0\<rparr>]\<rparr>) \<and>
   point_id (fst (run ops) + 1) \<notin> tp_id ` set (trackPoints (snd (run ops))) \<and>
   addTrackPoint p (c, state) =
     (c + 1, state\<lparr>trackPoints := trackPoints state @
         [\<lparr>tp_id = point_id (c + 1), position = p, tilt = 0\<rparr>]\<rparr>) \<and>
   length (trackPoints (snd (fold addTrackPoint ps (c, state)))) =
     length (trackPoints state) + length ps \<and>
   length (trackPoints (snd (fold addTrackPoint ps (c, clearTrack state)))) = length ps \<and>
   length (trackPoints (snd (run (map AddTrackPoint ps)))) = length ps \<and>
   distinct (map tp_id (trackPoints (snd (run (map AddTrackPoint ps)))))"
proof (intro conjI)
  have inv: "ids_minted (fst (run ops), snd (run ops))"
    using ids_minted_run [of ops] by simp
  show "distinct (map tp_id (trackPoints (snd (run ops))))"
    using ids_minted_run [of ops] by (simp add: ids_minted_def)
  show "run (ops @ [AddTrackPoint p]) =
     (fst (run ops) + 1,
      (snd (run ops))\<lparr>trackPoints := trackPoints (snd (run ops)) @
         [\<lparr>tp_id = point_id (fst (run ops) + 1), position = p, tilt = 0\<rparr>]\<rparr>)"
    by (simp add: run_snoc addTrackPoint_def Let_def clone_id)
  show "point_id (fst (run ops) + 1) \<notin> tp_id ` set (trackPoints (snd (run ops)))"
    by (rule ids_minted_fresh [OF inv]) simp
  show "addTrackPoint p (c, state) =
     (c + 1, state\<lparr>trackPoints := trackPoints state @
         [\<lparr>tp_id = point_id (c + 1), position = p, tilt = 0\<rparr>]\<rparr>)"
    by (simp add: addTrackPoint_def Let_def clone_id)
  show "length (trackPoints (snd (fold addTrackPoint ps (c, state)))) =
     length (trackPoints state) + length ps"
    by (simp add: length_fold_addTrackPoint)
  show "length (trackPoints (snd (fold addTrackPoint ps (c, clearTrack state)))) = length ps"
    by (simp add: length_fold_addTrackPoint clearTrack_def)
  show "length (trackPoints (snd (run (map AddTrackPoint ps)))) = length ps"
    by (simp add: run_map_AddTrackPoint length_fold_addTrackPoint initialState_def)
  show "distinct (map tp_id (trackPoints (snd (run (map AddTrackPoint ps)))))"
    using ids_minted_run [of "map AddTrackPoint ps"] by (simp add: ids_minted_def)
qed

subsection \<open>removeTrackPoint\<close>

text \<open>
  Claim C9, as the claim states it, fails where it says that \<open>removeTrackPoint\<close> is a
  no-op when no point matches: on the fresh store with the id \<open>point-7\<close> selected, no
  point has that id, and removing it clears the selection.
\<close>

theorem removeTrackPoint_noop_counterexample:
  "trackPoints staleSelection = [] \<and>
   selectedPointId staleSelection = Some ''point-7'' \<and>
   selectedPointId (removeTrackPoint ''point-7'' staleSelection) = None \<and>
   removeTrackPoint ''point-7'' staleSelection \<noteq> staleSelection"
proof -
  have a: "trackPoints staleSelection = []"
    and b: "selectedPointId staleSelection = Some ''point-7''"
    by (simp_all add: staleSelection_def run_def selectPoint_def initialState_def)
  have c: "selectedPointId (removeTrackPoint ''point-7'' staleSelection) = None"
    by (simp add: removeTrackPoint_def b)
  have "removeTrackPoint ''point-7'' staleSelection \<noteq> staleSelection"
  proof
    assume "removeTrackPoint ''point-7'' staleSelection = staleSelection"
    then have "selectedPointId (removeTrackPoint ''point-7'' staleSelection) =
      selectedPointId staleSelection" by simp
    with b c show False by simp
  qed
  with a b c show ?thesis by simp
qed

text \<open>
  Claim C9, amended.  \<open>removeTrackPoint\<close> keeps exactly the points whose id differs, in
  their order (with pairwise distinct ids: it removes the one matching point), sets
  \<open>selectedPointId\<close> to none when it was the id and keeps it otherwise, and changes no
  other field.  When no point matches, the track is unchanged, and the whole state is
  unchanged when moreover the id is not the selected one.  Applying it twice is the same
  as applying it once.
\<close>

theorem removeTrackPoint_spec:
  "removeTrackPoint i state =
     state\<lparr>trackPoints := filter (\<lambda>p. tp_id p \<noteq> i) (trackPoints state),
           selectedPointId := (if selectedPointId state = Some i then None
                               else selectedPointId state)\<rparr> \<and>
   (distinct (map tp_id (trackPoints state)) \<and> n < length (trackPoints state) \<and>
    tp_id (trackPoints state ! n) = i \<longrightarrow>
      trackPoints (removeTrackPoint i state) =
        take n (trackPoints state) @ drop (Suc n) (trackPoints state)) \<and>
   (i \<notin> tp_id ` set (trackPoints state) \<longrightarrow>
      trackPoints (removeTrackPoint i state) = trackPoints state) \<and>
   (i \<notin> tp_id ` set (trackPoints state) \<and> selectedPointId state \<noteq> Some i \<longrightarrow>
      removeTrackPoint i state = state) \<and>
   removeTrackPoint i (removeTrackPoint i state) = removeTrackPoint i state"
proof (intro conjI impI)
  show "removeTrackPoint i state =
     state\<lparr>trackPoints := filter (\<lambda>p. tp_id p \<noteq> i) (trackPoints state),
           selectedPointId := (if selectedPointId state = Some i then None
                               else selectedPointId state)\<rparr>"
    by (simp add: removeTrackPoint_def)
next
  assume "distinct (map tp_id (trackPoints state)) \<and> n < length (trackPoints state) \<and>
    tp_id (trackPoints state ! n) = i"
  then show "trackPoints (removeTrackPoint i state) =
        take n (trackPoints state) @ drop (Suc n) (trackPoints state)"
    using filter_distinct_nth [of tp_id "trackPoints state" n]
    by (auto simp: removeTrackPoint_def)
next
  assume "i \<notin> tp_id ` set (trackPoints state)"
  then have "\<forall>p \<in> set (trackPoints state). tp_id p \<noteq> i" by auto
  then show "trackPoints (removeTrackPoint i state) = trackPoints state"
    by (simp add: removeTrackPoint_def filter_id_conv)
next
  assume a: "i \<notin> tp_id ` set (trackPoints state) \<and> selectedPointId state \<noteq> Some i"
  then have "\<forall>p \<in> set (trackPoints state). tp_id p \<noteq> i" by auto
  then have "filter (\<lambda>p. tp_id p \<noteq> i) (trackPoints state) = trackPoints state"
    by (simp add: filter_id_conv)
  with a show "removeTrackPoint i state = state"
    by (simp add: removeTrackPoint_def)
next
  show "removeTrackPoint i (removeTrackPoint i state) = removeTrackPoint i state"
    by (simp add: removeTrackPoint_def)
qed

theorem removeTrackPoint_spec_witness:
  "distinct (map tp_id (trackPoints (snd straightTrack))) \<and>
   1 < length (trackPoints (snd straightTrack)) \<and>
   tp_id (trackPoints (snd straightTrack) ! 1) = ''point-2'' \<and>
   trackPoints (removeTrackPoint ''point-2'' (snd straightTrack)) =
     [\<lparr>tp_id = ''point-1'', position = vec 0 0 0, tilt = 0\<rparr>,
      \<lparr>tp_id = ''point-3'', position = vec 20 0 0, tilt = 0\<rparr>] \<and>
   ''point-9'' \<notin> tp_id ` set (trackPoints (snd straightTrack)) \<and>
   selectedPointId (snd straightTrack) \<noteq> Some ''point-9'' \<and>
   removeTrackPoint ''point-9'' (snd straightTrack) = snd straightTrack"
proof -
  have sel: "selectedPointId (snd straightTrack) = None"
    by (simp add: straightTrack_def run_def addTrackPoint_def initialState_def)
  show ?thesis
    using removeTrackPoint_spec [of "''point-2''" "snd straightTrack" 1]
      removeTrackPoint_spec [of "''point-9''" "snd straightTrack" 0]
    by (simp add: straightTrack_points sel)
qed

subsection \<open>startRide\<close>

text \<open>
  Claim C7.  On a track with at least two points \<open>startRide\<close> sets the mode to ride,
  \<open>isRiding\<close> to true and \<open>rideProgress\<close> to 0 (and nothing else); on a track with
  no point or one point it returns the state as it was.
\<close>

theorem startRide_spec:
  "(2 \<le> length (trackPoints state) \<longrightarrow>
      startRide state = state\<lparr>mode := Ride, isRiding := True, rideProgress := 0\<rparr> \<and>
      mode (startRide state) = Ride \<and> isRiding (startRide state) \<and>
      rideProgress (startRide state) = 0) \<and>
   (length (trackPoints state) < 2 \<longrightarrow> startRide state = state)"
  by (simp add: startRide_def)

theorem startRide_spec_witness:
  "2 \<le> length (trackPoints (snd straightTrack)) \<and>
   mode (startRide (snd straightTrack)) = Ride \<and>
   isRiding (startRide (snd straightTrack)) \<and>
   rideProgress (startRide (snd straightTrack)) = 0 \<and>
   length (trackPoints initialState) < 2 \<and>
   startRide initialState = initialState"
  using startRide_spec [of "snd straightTrack"] startRide_spec [of initialState]
  by (simp add: straightTrack_points) (simp add: initialState_def)

subsection \<open>clearTrack\<close>

text \<open>
  Claim C8.  Whatever the state before, after \<open>clearTrack\<close> the track is empty, nothing
  is selected, the ride progress is 0 and the ride flag is off.
\<close>

theorem clearTrack_resets:
  "trackPoints (clearTrack state) = [] \<and> selectedPointId (clearTrack state) = None \<and>
   rideProgress (clearTrack state) = 0 \<and> isRiding (clearTrack state) = False"
  by (simp add: clearTrack_def)

text \<open>
  Claim C10.  \<open>clearTrack\<close> keeps the nine other fields; a store in ride mode is still
  in ride mode after the track was cleared.
\<close>

theorem clearTrack_frame:
  "mode (clearTrack state) = mode state \<and>
   rideSpeed (clearTrack state) = rideSpeed state \<and>
   isDraggingPoint (clearTrack state) = isDraggingPoint state \<and>
   isAddingPoints (clearTrack state) = isAddingPoints state \<and>
   isLooped (clearTrack state) = isLooped state \<and>
   hasChainLift (clearTrack state) = hasChainLift state \<and>
   showWoodSupports (clearTrack state) = showWoodSupports state \<and>
   isNightMode (clearTrack state) = isNightMode state \<and>
   cameraTarget (clearTrack state) = cameraTarget state \<and>
   mode (clearTrack (state\<lparr>mode := Ride\<rparr>)) = Ride \<and>
   mode (clearTrack (state\<lparr>mode := Ride\<rparr>)) \<noteq> Build"
  by (simp add: clearTrack_def)

end
